theory Spec2Isabelle
  imports Complex_Main "HOL-Library.Sublist"
begin

section \<open>Strings and numbers of the source\<close>

text \<open>
  A JavaScript string is a sequence of code units. The model takes the code units
  U+0000 to U+00FF, one \<^typ>\<open>char\<close> each; every literal of the source lies in that range
  (the accented letters are the precomposed ones, written \<open>CHR 0xE9\<close> and so on).
  A JavaScript number is modelled by a rational: the finite values, with exact arithmetic.
  The code rounds the result of each operation to a double and the model does not, so
  an equation of the model stands for the same operations in the same order, and of
  the order facts only those are stated that a monotone rounding keeps (a sum with a
  positive duration is not below its first operand).
\<close>

definition isSpace :: "char \<Rightarrow> bool" where
  \<comment> \<open>the class \<open>\s\<close> of a regular expression, which is also what \<open>trim()\<close> strips\<close>
  "isSpace c \<longleftrightarrow> c \<in> set [CHR 0x09, CHR 0x0A, CHR 0x0B, CHR 0x0C, CHR 0x0D, CHR 0x20, CHR 0xA0]"

definition isDigit :: "char \<Rightarrow> bool" where
  \<comment> \<open>the class \<open>\d\<close>\<close>
  "isDigit c \<longleftrightarrow> c \<in> set ''0123456789''"

definition trim :: "string \<Rightarrow> string" where
  "trim s = rev (dropWhile isSpace (rev (dropWhile isSpace s)))"

primrec includesStr :: "string \<Rightarrow> string \<Rightarrow> bool" where
  \<comment> \<open>\<open>s.includes(sub)\<close>\<close>
  "includesStr [] sub = (sub = [])"
| "includesStr (c # cs) sub = (prefix sub (c # cs) \<or> includesStr cs sub)"

function splitSpaces :: "string \<Rightarrow> string list" where
  \<comment> \<open>\<open>s.split(/\s+/)\<close>: the pieces between the maximal runs of white space\<close>
  "splitSpaces [] = [[]]"
| "splitSpaces (c # cs) =
     (if isSpace c then [] # splitSpaces (dropWhile isSpace cs)
      else (case splitSpaces cs of [] \<Rightarrow> [[c]] | w # ws \<Rightarrow> (c # w) # ws))"
  by pat_completeness auto
termination
  by (relation "measure length") (auto simp: less_Suc_eq_le length_dropWhile_le)

definition the_default :: "string list option \<Rightarrow> string list" where
  \<comment> \<open>reading a property of the catalogue that is present\<close>
  "the_default v = (case v of Some sounds \<Rightarrow> sounds | None \<Rightarrow> [])"

definition tres_lent :: string where
  "tres_lent = ''tr'' @ [CHR 0xE8] @ ''s lent''"

definition modere :: string where
  "modere = ''mod'' @ [CHR 0xE9] @ ''r'' @ [CHR 0xE9]"

section \<open>calculateTiming (grokService.ts, lines 93 to 126)\<close>

datatype TransitionType = Crossfade | Cut | Overlap

record TimingInfo =
  estimatedDuration :: rat
  fadeIn :: rat
  fadeOut :: rat
  transitionType :: TransitionType
  transitionDuration :: rat

definition calculateTiming :: "string \<Rightarrow> string \<Rightarrow> TimingInfo" where
  "calculateTiming text speechRate =
     (let words = length (splitSpaces (trim text));
          wordsPerSecond = (if speechRate = tres_lent then 1
                            else if speechRate = ''lent'' then 3 / 2
                            else if speechRate = modere then 2
                            else 5 / 2);
          estimatedDuration = of_nat words / wordsPerSecond;
          fadeIn = min 1 (estimatedDuration * (1 / 10));
          fadeOut = min 1 (estimatedDuration * (1 / 10));
          hasEllipsis = includesStr text ''...'';
          endsWithPunctuation = (case rev (trim text) of [] \<Rightarrow> False | c # _ \<Rightarrow> c \<in> set ''.!?'');
          transitionType = (if hasEllipsis then Crossfade
                            else if endsWithPunctuation then Cut
                            else Overlap);
          transitionDuration = (if transitionType = Crossfade then 1
                                else if transitionType = Overlap then 1 / 2
                                else 1 / 5)
      in \<lparr> estimatedDuration = estimatedDuration, fadeIn = fadeIn, fadeOut = fadeOut,
           transitionType = transitionType, transitionDuration = transitionDuration \<rparr>)"

section \<open>The sound catalogue: mapEnvironmentToSounds (grokService.ts, lines 564 to 609)\<close>

definition lowerChar :: "char \<Rightarrow> char" where
  \<comment> \<open>\<open>toLowerCase()\<close> on one code unit: A to Z, and the capital letters of U+00C0 to U+00DE
      except the multiplication sign U+00D7\<close>
  "lowerChar c =
     (let n = (of_char c :: nat)
      in if (65 \<le> n \<and> n \<le> 90) \<or> (192 \<le> n \<and> n \<le> 222 \<and> n \<noteq> 215) then char_of (n + 32) else c)"

definition toLowerCase :: "string \<Rightarrow> string" where
  "toLowerCase s = map lowerChar s"

definition stripAccent :: "char \<Rightarrow> char" where
  \<comment> \<open>\<open>normalize("NFD")\<close> followed by the removal of U+0300 to U+036F: a letter with a
      canonical decomposition keeps its base letter, every other code unit is unchanged\<close>
  "stripAccent c =
     (let n = (of_char c :: nat)
      in if 192 \<le> n \<and> n \<le> 197 then CHR ''A'' else if n = 199 then CHR ''C''
         else if 200 \<le> n \<and> n \<le> 203 then CHR ''E'' else if 204 \<le> n \<and> n \<le> 207 then CHR ''I''
         else if n = 209 then CHR ''N'' else if 210 \<le> n \<and> n \<le> 214 then CHR ''O''
         else if 217 \<le> n \<and> n \<le> 220 then CHR ''U'' else if n = 221 then CHR ''Y''
         else if 224 \<le> n \<and> n \<le> 229 then CHR ''a'' else if n = 231 then CHR ''c''
         else if 232 \<le> n \<and> n \<le> 235 then CHR ''e'' else if 236 \<le> n \<and> n \<le> 239 then CHR ''i''
         else if n = 241 then CHR ''n'' else if 242 \<le> n \<and> n \<le> 246 then CHR ''o''
         else if 249 \<le> n \<and> n \<le> 252 then CHR ''u'' else if n = 253 \<or> n = 255 then CHR ''y''
         else c)"

function spacesToUnderscore :: "string \<Rightarrow> string" where
  \<comment> \<open>\<open>replace(/\s+/g, '_')\<close>\<close>
  "spacesToUnderscore [] = []"
| "spacesToUnderscore (c # cs) =
     (if isSpace c then CHR ''_'' # spacesToUnderscore (dropWhile isSpace cs)
      else c # spacesToUnderscore cs)"
  by pat_completeness auto
termination
  by (relation "measure length") (auto simp: less_Suc_eq_le length_dropWhile_le)

definition normalizeEnv :: "string \<Rightarrow> string" where
  "normalizeEnv s = spacesToUnderscore (map stripAccent (toLowerCase s))"

definition environmentSounds :: "(string \<times> string list) list" where
  \<comment> \<open>the object literal, in the order of \<open>Object.entries\<close>\<close>
  "environmentSounds =
     [(''plage'', [''ocean-waves-112906.mp3'', ''sea-and-seagull-wave-5932.mp3'']),
      (''mer'', [''ocean-waves-112906.mp3'', ''sea-wave-34088.mp3'']),
      (''oc'' @ [CHR 0xE9] @ ''an'', [''ocean-waves-112906.mp3'', ''sea-and-seagull-wave-5932.mp3'']),
      (''for'' @ [CHR 0xEA] @ ''t'', [''forest-ambience-296528.mp3'', ''bird-333090.mp3'']),
      (''bois'', [''forest-ambience-296528.mp3'', ''bird-333090.mp3'']),
      (''pluie'', [''light-spring-rain-nature-sounds-331710.mp3'', ''calm-nature-sounds-196258.mp3'']),
      (''orage'', [''light-spring-rain-nature-sounds-331710.mp3'', ''calm-nature-sounds-196258.mp3'']),
      (''ville'', [''city-ambience-9270.mp3'', ''opening-the-front-door-210347.mp3'']),
      (''rue'', [''city-ambience-9270.mp3'', ''opening-the-front-door-210347.mp3'']),
      (''chambre'', [''mid-nights-sound-291477.mp3'', ''main-door-opening-closing-38280.mp3'']),
      (''lit'', [''mid-nights-sound-291477.mp3'', ''main-door-opening-closing-38280.mp3'']),
      (''ruisseau'', [''relaxing-mountains-rivers-streams-running-water-18178.mp3'', ''river-26984.mp3'']),
      (''rivi'' @ [CHR 0xE8] @ ''re'', [''relaxing-mountains-rivers-streams-running-water-18178.mp3'', ''river-26984.mp3'']),
      (''vent'', [''windy-hut-fx-64675.mp3'']),
      (''nature'', [''calm-nature-sounds-196258.mp3'', ''bird-333090.mp3'']),
      (''porte'', [''main-door-opening-closing-38280.mp3'', ''opening-the-front-door-210347.mp3'']),
      (''nuit'', [''mid-nights-sound-291477.mp3'']),
      (''default'', [''calm-nature-sounds-196258.mp3''])]"

fun searchSounds :: "string \<Rightarrow> (string \<times> string list) list \<Rightarrow> string list option" where
  \<comment> \<open>the \<open>for ... of Object.entries\<close> loop; \<open>None\<close> when it ends without a \<open>return\<close>\<close>
  "searchSounds normalizedEnv [] = None"
| "searchSounds normalizedEnv ((env, sounds) # rest) =
     (let normalizedKey = normalizeEnv env
      in if includesStr normalizedEnv normalizedKey \<or> includesStr normalizedKey normalizedEnv
         then Some sounds
         else searchSounds normalizedEnv rest)"

definition mapEnvironmentToSounds :: "string \<Rightarrow> string list" where
  "mapEnvironmentToSounds env =
     (case searchSounds (normalizeEnv env) environmentSounds of
        Some sounds \<Rightarrow> sounds
      | None \<Rightarrow> the_default (map_of environmentSounds ''default''))"

section \<open>Cleaning a segment text (grokService.ts, lines 294 to 306)\<close>

definition isNumChar :: "char \<Rightarrow> bool" where
  \<comment> \<open>the class \<open>[\d\.\s]\<close>\<close>
  "isNumChar c \<longleftrightarrow> isDigit c \<or> c = CHR ''.'' \<or> isSpace c"

definition stripLeadingNumber :: "string \<Rightarrow> string" where
  \<comment> \<open>\<open>replace(/^\s*\d+\.\s*/, '')\<close>: white space, digits, a dot, white space, at the start\<close>
  "stripLeadingNumber s =
     (let r = dropWhile isSpace s
      in case dropWhile isDigit r of
           [] \<Rightarrow> s
         | c # rest \<Rightarrow> if takeWhile isDigit r \<noteq> [] \<and> c = CHR ''.'' then dropWhile isSpace rest else s)"

definition stripLeadingNumChars :: "string \<Rightarrow> string" where
  \<comment> \<open>\<open>replace(/^\s*[\d\.\s]+/, '')\<close>: the longest prefix of digits, dots and white space\<close>
  "stripLeadingNumChars s = dropWhile isNumChar s"

definition stripTrailingNumChars :: "string \<Rightarrow> string" where
  \<comment> \<open>\<open>replace(/[\d\.\s]+\s*$/, '')\<close>: the leftmost match is the longest suffix of digits,
      dots and white space\<close>
  "stripTrailingNumChars s = rev (dropWhile isNumChar (rev s))"

function stripListNumbers :: "string \<Rightarrow> string" where
  \<comment> \<open>\<open>replace(/\n\d+\.\s*/g, '\n')\<close>\<close>
  "stripListNumbers [] = []"
| "stripListNumbers (c # cs) =
     (case dropWhile isDigit cs of
        [] \<Rightarrow> c # stripListNumbers cs
      | d # rest \<Rightarrow>
          if c = CHR 0x0A \<and> takeWhile isDigit cs \<noteq> [] \<and> d = CHR ''.''
          then CHR 0x0A # stripListNumbers (dropWhile isSpace rest)
          else c # stripListNumbers cs)"
  by pat_completeness auto
termination
proof (relation "measure length", goal_cases)
  case 1
  show ?case by simp
next
  case (2 c cs)
  show ?case by simp
next
  case (3 c cs d rest)
  have "length (dropWhile isSpace rest) \<le> length rest"
    by (rule length_dropWhile_le)
  moreover have "length (d # rest) \<le> length cs"
    using length_dropWhile_le [of isDigit cs] 3(1) by simp
  ultimately show ?case by simp
next
  case (4 c cs d rest)
  show ?case by simp
qed

function stripIsolatedNumbers :: "string \<Rightarrow> string" where
  \<comment> \<open>\<open>replace(/\s+\d+\s+/g, ' ')\<close>\<close>
  "stripIsolatedNumbers [] = []"
| "stripIsolatedNumbers (c # cs) =
     (let r = dropWhile isSpace cs; r' = dropWhile isDigit r
      in if isSpace c \<and> takeWhile isDigit r \<noteq> [] \<and> takeWhile isSpace r' \<noteq> []
         then CHR '' '' # stripIsolatedNumbers (dropWhile isSpace r')
         else c # stripIsolatedNumbers cs)"
  by pat_completeness auto
termination
proof (relation "measure length", goal_cases)
  case 1
  show ?case by simp
next
  case (2 c cs r r')
  have "length (dropWhile isSpace r') \<le> length r'"
    by (rule length_dropWhile_le)
  also have "length r' \<le> length r"
    unfolding 2(2) by (rule length_dropWhile_le)
  also have "length r \<le> length cs"
    unfolding 2(1) by (rule length_dropWhile_le)
  finally show ?case by simp
next
  case (3 c cs r r')
  show ?case by simp
qed

definition cleanText :: "string \<Rightarrow> string" where
  \<comment> \<open>the chain of five \<open>replace\<close> calls and the final \<open>trim()\<close>\<close>
  "cleanText s =
     trim (stripIsolatedNumbers (stripListNumbers (stripTrailingNumChars
       (stripLeadingNumChars (stripLeadingNumber s)))))"

abbreviation cleanEnds :: "string \<Rightarrow> bool" where
  \<comment> \<open>no digit, dot or white space at either end\<close>
  "cleanEnds s \<equiv> s = [] \<or> (\<not> isNumChar (hd s) \<and> \<not> isNumChar (last s))"

section \<open>The segment types (grokService.ts, lines 12 to 83)\<close>

record VocalCharacteristics =
  intensity :: rat
  type :: string
  rhythm :: string
  pitch :: rat

record ExpressionDetails =
  breathing :: string
  sounds :: "string list"
  duration :: rat

record ElevenLabsParams =
  stability :: rat
  similarity_boost :: rat
  speed :: "string option"
  pitch_shift :: "rat option"

record EnvironmentDetails =
  type :: string
  suggestedSound :: "string option"

record EnhancedSegment =
  "text" :: string
  vocal :: VocalCharacteristics
  expressions :: ExpressionDetails
  elevenlabs :: ElevenLabsParams
  environment :: "EnvironmentDetails option"

record Transition =
  type :: TransitionType
  duration :: rat

record EnvironmentDetection =
  segment :: string
  environment :: string
  soundEffects :: "string list"
  emotionalTone :: string
  speechRate :: string
  volume :: string
  startTime :: "rat option"
  duration :: "rat option"
  fadeIn :: "rat option"
  fadeOut :: "rat option"
  transition :: "Transition option"
  elevenlabsParams :: "ElevenLabsParams option"
  expressionDetails :: "ExpressionDetails option"

section \<open>From a remote segment to a detection (grokService.ts, lines 292 to 361)\<close>

definition gemissement :: string where
  "gemissement = ''g'' @ [CHR 0xE9] @ ''missement''"

definition toDetection :: "EnhancedSegment \<Rightarrow> EnvironmentDetection" where
  \<comment> \<open>the callback of \<open>enhancedSegments.map\<close>\<close>
  "toDetection seg =
     (let cleaned = cleanText (text seg);
          cleanedText = (if cleaned = [] \<or> length cleaned < 3 then text seg else cleaned);
          env = (case EnhancedSegment.environment seg of
                   None \<Rightarrow> ''chambre''
                 | Some e \<Rightarrow> if EnvironmentDetails.type e = [] then ''chambre''
                             else EnvironmentDetails.type e);
          soundEffects = mapEnvironmentToSounds env;
          vtype = VocalCharacteristics.type (vocal seg);
          intens = intensity (vocal seg);
          emotionalTone =
            (if vtype = gemissement \<or> intens > 80 then ''excite''
             else if vtype = ''cri'' \<or> intens > 90 then ''jouissance''
             else if vtype = ''murmure'' \<or> vtype = ''chuchotement'' then ''murmure''
             else if intens > 70 then ''intense''
             else if intens < 50 then ''doux''
             else ''sensuel'');
          speechRate = (if rhythm (vocal seg) = tres_lent then tres_lent
                        else if rhythm (vocal seg) = ''lent'' then ''lent''
                        else if rhythm (vocal seg) = ''rapide'' then ''rapide''
                        else modere);
          volume = (if intens > 80 then ''fort'' else if intens < 50 then ''doux'' else ''normal'')
      in \<lparr> segment = cleanedText,
           environment = env,
           soundEffects = soundEffects,
           emotionalTone = emotionalTone,
           speechRate = speechRate,
           volume = volume,
           startTime = None,
           duration = None,
           fadeIn = None,
           fadeOut = None,
           transition = None,
           elevenlabsParams = Some
             \<lparr> stability = stability (elevenlabs seg),
               similarity_boost = similarity_boost (elevenlabs seg),
               speed = Some (if rhythm (vocal seg) = tres_lent then ''25%''
                             else if rhythm (vocal seg) = ''lent'' then ''35%''
                             else if rhythm (vocal seg) = ''rapide'' then ''55%''
                             else ''45%''),
               pitch_shift = Some (pitch (vocal seg)) \<rparr>,
           expressionDetails = Some
             \<lparr> breathing = breathing (expressions seg),
               sounds = sounds (expressions seg),
               ExpressionDetails.duration = ExpressionDetails.duration (expressions seg) \<rparr> \<rparr>)"

section \<open>The remote adapter: analyzeTextWithGrok (grokService.ts, lines 133 to 275)\<close>

text \<open>
  The network and the JSON text are outside the model. What the adapter can observe is
  a parameter: the \<open>fetch\<close> either throws or gives a response with a status; reading the
  reply (\<open>response.json()\<close>, the extraction patterns, \<open>JSON.parse\<close>) either throws or
  gives the value of \<open>parsedResponse.segments\<close>, which the unchecked cast
  \<open>as GrokAnalysisResponse\<close> lets be anything: a list of segments of the declared shape,
  or a value on which the conversion above throws a \<open>TypeError\<close>.
\<close>

datatype GrokValue = Segments "EnhancedSegment list" | Malformed

datatype ReplyBody = Unparsable | Parsed GrokValue

datatype FetchResult = NetworkError | Response nat ReplyBody

datatype Failure = FetchFailed | ApiError nat | InvalidFormat | TypeError

definition responseOk :: "nat \<Rightarrow> bool" where
  \<comment> \<open>\<open>response.ok\<close>\<close>
  "responseOk status \<longleftrightarrow> 200 \<le> status \<and> status \<le> 299"

definition grokRequest :: "FetchResult \<Rightarrow> Failure + GrokValue" where
  \<comment> \<open>the \<open>try\<close> block of \<open>analyzeTextWithGrok\<close>; \<open>Inl\<close> is a \<open>throw\<close>\<close>
  "grokRequest fr =
     (case fr of
        NetworkError \<Rightarrow> Inl FetchFailed
      | Response status body \<Rightarrow>
          if \<not> responseOk status then Inl (ApiError status)
          else (case body of Unparsable \<Rightarrow> Inl InvalidFormat | Parsed v \<Rightarrow> Inr v))"

definition defaultSegment :: "string \<Rightarrow> EnhancedSegment" where
  "defaultSegment txt =
     \<lparr> text = txt,
       vocal = \<lparr> intensity = 70, VocalCharacteristics.type = ''normal'', rhythm = ''lent'', pitch = - 5 \<rparr>,
       expressions = \<lparr> breathing = ''l'' @ [CHR 0xE9] @ ''g'' @ [CHR 0xE8] @ ''re'', sounds = [],
                       ExpressionDetails.duration = 500 \<rparr>,
       elevenlabs = \<lparr> stability = 65 / 100, similarity_boost = 8 / 10, speed = None,
                      pitch_shift = None \<rparr>,
       EnhancedSegment.environment = Some \<lparr> EnvironmentDetails.type = ''chambre'',
                                             suggestedSound = Some ''mid-nights-sound-291477.mp3'' \<rparr> \<rparr>"

definition analyzeTextWithGrok :: "FetchResult \<Rightarrow> string \<Rightarrow> Failure + GrokValue" where
  \<comment> \<open>the \<open>catch\<close> block turns every \<open>throw\<close> of the \<open>try\<close> block into the default segment\<close>
  "analyzeTextWithGrok fr txt =
     (case grokRequest fr of
        Inl err \<Rightarrow> Inr (Segments [defaultSegment txt])
      | Inr v \<Rightarrow> Inr v)"

section \<open>The timing pass (grokService.ts, lines 363 to 388 and 492 to 517)\<close>

text \<open>
  Both \<open>analyzeTextEnvironments\<close> and \<open>analyzeTextLocally\<close> end with the same
  \<open>results.map((segment, index) => ...)\<close> over a running \<open>currentTime\<close>. The arguments
  are \<open>results.length\<close>, the running \<open>currentTime\<close>, the \<open>index\<close> and the segments
  that remain.
\<close>

fun timingPass :: "nat \<Rightarrow> rat \<Rightarrow> nat \<Rightarrow> EnvironmentDetection list \<Rightarrow> EnvironmentDetection list" where
  "timingPass len currentTime index [] = []"
| "timingPass len currentTime index (s # ss) =
     (let timing = calculateTiming (segment s) (speechRate s);
          enhancedSegment = s\<lparr> startTime := Some currentTime,
                               EnvironmentDetection.duration := Some (estimatedDuration timing),
                               EnvironmentDetection.fadeIn := Some (TimingInfo.fadeIn timing),
                               EnvironmentDetection.fadeOut := Some (TimingInfo.fadeOut timing),
                               transition := Some \<lparr> Transition.type = transitionType timing,
                                                     Transition.duration = transitionDuration timing \<rparr> \<rparr>;
          currentTime1 = currentTime + estimatedDuration timing;
          currentTime2 = (if transitionType timing = Crossfade \<and> int index < int len - 1
                          then currentTime1 - transitionDuration timing else currentTime1)
      in enhancedSegment # timingPass len currentTime2 (index + 1) ss)"

definition addTiming :: "EnvironmentDetection list \<Rightarrow> EnvironmentDetection list" where
  "addTiming results = timingPass (length results) 0 0 results"

section \<open>The local analysis: analyzeTextLocally (grokService.ts, lines 408 to 557)\<close>

function splitParagraphs :: "string \<Rightarrow> string list" where
  \<comment> \<open>\<open>text.split(/\n\n+/)\<close>: the pieces between the runs of two or more line feeds\<close>
  "splitParagraphs [] = [[]]"
| "splitParagraphs (c # cs) =
     (if c = CHR 0x0A \<and> takeWhile (\<lambda>d. d = CHR 0x0A) cs \<noteq> []
      then [] # splitParagraphs (dropWhile (\<lambda>d. d = CHR 0x0A) cs)
      else (case splitParagraphs cs of [] \<Rightarrow> [[c]] | p # ps \<Rightarrow> (c # p) # ps))"
  by pat_completeness auto
termination
  by (relation "measure length") (auto simp: less_Suc_eq_le length_dropWhile_le)

fun matchesRuns :: "char \<Rightarrow> char \<Rightarrow> char \<Rightarrow> string \<Rightarrow> bool" where
  \<comment> \<open>\<open>/x+y+z+/\<close> has a match in the string, for letters with \<open>x\<close> different from \<open>y\<close>: at
      some \<open>x\<close>, the run of \<open>x\<close> is followed by a run of \<open>y\<close> and then by \<open>z\<close>; when \<open>y\<close> and
      \<open>z\<close> are the same letter the run of \<open>y\<close> has to give one of at least two letters back\<close>
  "matchesRuns x y z [] = False"
| "matchesRuns x y z (c # cs) =
     ((c = x \<and>
       (let r = dropWhile (\<lambda>d. d = x) cs;
            ys = takeWhile (\<lambda>d. d = y) r
        in if y = z then 2 \<le> length ys
           else ys \<noteq> [] \<and> (case dropWhile (\<lambda>d. d = y) r of [] \<Rightarrow> False | e # _ \<Rightarrow> e = z)))
      \<or> matchesRuns x y z cs)"

definition matchesIgnoringCase :: "string \<Rightarrow> char \<Rightarrow> char \<Rightarrow> char \<Rightarrow> bool" where
  \<comment> \<open>\<open>s.match(/x+y+z+/i)\<close> is not null: the flag \<open>i\<close> lets a letter match in either case\<close>
  "matchesIgnoringCase s x y z \<longleftrightarrow> matchesRuns x y z (toLowerCase s)"

definition localDetection :: "string \<Rightarrow> EnvironmentDetection" where
  \<comment> \<open>the callback of \<open>segments.map\<close>\<close>
  "localDetection seg =
     (let lower = toLowerCase seg;
          env = (if includesStr lower ''plage'' \<or> includesStr lower ''mer'' \<or> includesStr lower ''vague''
                 then ''plage''
                 else if includesStr lower (''for'' @ [CHR 0xEA] @ ''t'') \<or> includesStr lower ''bois''
                         \<or> includesStr lower ''arbre''
                 then ''for'' @ [CHR 0xEA] @ ''t''
                 else if includesStr lower ''pluie'' \<or> includesStr lower ''orage'' then ''pluie''
                 else if includesStr lower ''ville'' \<or> includesStr lower ''rue'' then ''ville''
                 else ''chambre'');
          emotionalTone =
            (if includesStr lower (''g'' @ [CHR 0xE9] @ ''mis'') \<or> includesStr lower ''soupir''
                \<or> includesStr lower ''excit''
             then ''excite''
             else if includesStr lower ''extase'' \<or> includesStr lower ''jouir''
                     \<or> includesStr lower ''orgasme''
             then ''jouissance''
             else if includesStr lower ''murmure'' \<or> includesStr lower ''chuchot'' then ''murmure''
             else if includesStr lower ''fort'' \<or> includesStr lower ''intense''
                     \<or> includesStr lower ''violent''
             then ''intense''
             else if includesStr lower ''doux'' \<or> includesStr lower ''tendre'' then ''doux''
             else ''sensuel'');
          onomatopees =
            (if matchesIgnoringCase seg CHR ''m'' CHR ''h'' CHR ''h'' then [''mhhh''] else []) @
            (if matchesIgnoringCase seg CHR ''a'' CHR ''h'' CHR ''h'' then [''ahhh''] else []) @
            (if matchesIgnoringCase seg CHR ''o'' CHR ''h'' CHR ''h'' then [''ohhh''] else []) @
            (if matchesIgnoringCase seg CHR ''h'' CHR ''a'' CHR ''h'' then [''hahh''] else []) @
            (if matchesIgnoringCase seg CHR ''o'' CHR ''u'' CHR ''i'' then [''oui''] else [])
      in \<lparr> segment = seg,
           environment = env,
           soundEffects = mapEnvironmentToSounds env,
           emotionalTone = emotionalTone,
           speechRate = ''lent'',
           volume = ''normal'',
           startTime = None,
           duration = None,
           fadeIn = None,
           fadeOut = None,
           transition = None,
           elevenlabsParams = Some
             \<lparr> stability = (if emotionalTone = ''jouissance'' then 3 / 10
                            else if emotionalTone = ''excite'' then 4 / 10
                            else if emotionalTone = ''murmure'' then 8 / 10
                            else if emotionalTone = ''intense'' then 4 / 10
                            else 65 / 100),
               similarity_boost = (if emotionalTone = ''jouissance'' then 95 / 100
                                   else if emotionalTone = ''excite'' then 9 / 10
                                   else if emotionalTone = ''murmure'' then 75 / 100
                                   else if emotionalTone = ''intense'' then 9 / 10
                                   else 8 / 10),
               speed = Some ''35%'',
               pitch_shift = Some (if emotionalTone = ''murmure'' then - 10
                                   else if emotionalTone = ''jouissance'' then 5
                                   else - 5) \<rparr>,
           expressionDetails = Some
             \<lparr> breathing = (if emotionalTone = ''jouissance'' \<or> emotionalTone = ''excite''
                            then ''haletante''
                            else if emotionalTone = ''intense'' then ''profonde''
                            else ''l'' @ [CHR 0xE9] @ ''g'' @ [CHR 0xE8] @ ''re''),
               sounds = onomatopees,
               ExpressionDetails.duration = 500 \<rparr> \<rparr>)"

definition localAnalysis :: "string \<Rightarrow> Failure + EnvironmentDetection list" where
  \<comment> \<open>the \<open>try\<close> block of \<open>analyzeTextLocally\<close>; nothing in it throws on a string\<close>
  "localAnalysis txt =
     (let paragraphs = filter (\<lambda>p. length (trim p) > 0) (splitParagraphs txt);
          segments = (if length paragraphs > 0 then paragraphs else [txt])
      in Inr (addTiming (map localDetection segments)))"

definition defaultDetection :: "string \<Rightarrow> EnvironmentDetection" where
  \<comment> \<open>the \<open>defaultSegment\<close> of the \<open>catch\<close> block\<close>
  "defaultDetection txt =
     \<lparr> segment = txt, environment = ''chambre'', soundEffects = [''mid-nights-sound-291477.mp3''],
       emotionalTone = ''sensuel'', speechRate = ''lent'', volume = ''normal'',
       startTime = Some 0, duration = Some 10, fadeIn = Some (1 / 2), fadeOut = Some (1 / 2),
       transition = Some \<lparr> Transition.type = Crossfade, Transition.duration = 1 / 2 \<rparr>,
       elevenlabsParams = Some \<lparr> stability = 65 / 100, similarity_boost = 8 / 10,
                                 speed = Some ''35%'', pitch_shift = Some (- 5) \<rparr>,
       expressionDetails = Some \<lparr> breathing = ''l'' @ [CHR 0xE9] @ ''g'' @ [CHR 0xE8] @ ''re'',
                                  sounds = [], ExpressionDetails.duration = 500 \<rparr> \<rparr>"

definition analyzeTextLocally :: "string \<Rightarrow> Failure + EnvironmentDetection list" where
  "analyzeTextLocally txt =
     (case localAnalysis txt of
        Inl err \<Rightarrow> Inr [defaultDetection txt]
      | Inr results \<Rightarrow> Inr results)"

section \<open>The pipeline: analyzeTextEnvironments (grokService.ts, lines 282 to 401)\<close>

definition remoteAnalysis :: "FetchResult \<Rightarrow> string \<Rightarrow> Failure + EnvironmentDetection list" where
  \<comment> \<open>the \<open>try\<close> block: the adapter, the conversion of each segment, the timing pass\<close>
  "remoteAnalysis fr txt =
     (case analyzeTextWithGrok fr txt of
        Inl err \<Rightarrow> Inl err
      | Inr Malformed \<Rightarrow> Inl TypeError
      | Inr (Segments enhancedSegments) \<Rightarrow> Inr (addTiming (map toDetection enhancedSegments)))"

definition analyzeTextEnvironments :: "FetchResult \<Rightarrow> string \<Rightarrow> Failure + EnvironmentDetection list" where
  \<comment> \<open>the \<open>catch\<close> block hands every \<open>throw\<close> of the \<open>try\<close> block to the local analysis\<close>
  "analyzeTextEnvironments fr txt =
     (case remoteAnalysis fr txt of
        Inl err \<Rightarrow> analyzeTextLocally txt
      | Inr results \<Rightarrow> Inr results)"

section \<open>The rate sent to the synthesis (generateVoiceWithEnvironment, lines 197 to 236)\<close>

definition parseInt :: "string \<Rightarrow> int option" where
  \<comment> \<open>\<open>parseInt(s, 10)\<close>: leading white space, a sign, the longest run of digits;
      \<open>None\<close> is \<open>NaN\<close>\<close>
  "parseInt s =
     (let S = dropWhile isSpace s;
          sign = (case S of [] \<Rightarrow> 1 | c # _ \<Rightarrow> if c = CHR ''-'' then - 1 else (1::int));
          S' = (case S of [] \<Rightarrow> [] | c # rest \<Rightarrow> if c = CHR ''+'' \<or> c = CHR ''-'' then rest else S);
          Z = takeWhile isDigit S'
      in if Z = [] then None
         else Some (sign * foldl (\<lambda>a c. 10 * a + (int (of_char c) - 48)) 0 Z))"

definition prosodySpeed :: "EnvironmentDetection \<Rightarrow> int option" where
  \<comment> \<open>the variable \<open>speed\<close> when the \<open>prosody\<close> tag is written: \<open>Some n\<close> is the string
      of \<open>n\<close> followed by the percent sign, \<open>None\<close> is \<open>NaN%\<close>\<close>
  "prosodySpeed seg =
     (let speed0 = (if emotionalTone seg = ''jouissance'' then 35
                    else if emotionalTone seg = ''excite'' then 32
                    else if emotionalTone seg = ''murmure'' then 20
                    else if emotionalTone seg = ''sensuel'' then 25
                    else if emotionalTone seg = ''intense'' then 30
                    else 28)
      in case elevenlabsParams seg of
           None \<Rightarrow> Some speed0
         | Some params \<Rightarrow>
             (case speed params of
                None \<Rightarrow> Some speed0
              | Some sp \<Rightarrow>
                  if sp = [] then Some speed0
                  else (case parseInt (remove1 (CHR ''%'') sp) of
                          None \<Rightarrow> None
                        | Some speedValue \<Rightarrow> Some (min speedValue 35))))"

section \<open>getVoiceSettings (voiceSettings.ts, lines 29 to 73)\<close>

text \<open>
  Here a number is a rational or \<open>NaN\<close>. The fields of the analysis are numbers that the
  caller passes, and \<open>NaN\<close> is one of them. The arithmetic can also produce \<open>NaN\<close> from
  finite inputs: \<open>baseSettings[emotion]\<close> reads a property of an object literal, and
  for a name that every object inherits (\<open>constructor\<close>, \<open>toString\<close>, ...) the value
  read is a function, which is truthy and has no \<open>stability\<close>. Every operation with
  a \<open>NaN\<close> operand gives \<open>NaN\<close>, \<open>Math.min\<close> and \<open>Math.max\<close> included. The type
  \<open>TextAnalysis\<close> is declared in a file that is not part of the sources; the two fields
  that the function reads are taken from its uses.
\<close>

datatype jsnumber = Num rat | NaN

record VoiceSettings =
  stability :: jsnumber
  similarity_boost :: jsnumber

record TextAnalysis =
  intensity :: jsnumber
  emotionalProgression :: jsnumber

fun jsTimes :: "jsnumber \<Rightarrow> jsnumber \<Rightarrow> jsnumber" where
  "jsTimes (Num a) (Num b) = Num (a * b)"
| "jsTimes _ _ = NaN"

fun jsPlus :: "jsnumber \<Rightarrow> jsnumber \<Rightarrow> jsnumber" where
  "jsPlus (Num a) (Num b) = Num (a + b)"
| "jsPlus _ _ = NaN"

fun jsMinus :: "jsnumber \<Rightarrow> jsnumber \<Rightarrow> jsnumber" where
  "jsMinus (Num a) (Num b) = Num (a - b)"
| "jsMinus _ _ = NaN"

fun mathMin :: "jsnumber \<Rightarrow> jsnumber \<Rightarrow> jsnumber" where
  "mathMin (Num a) (Num b) = Num (min a b)"
| "mathMin _ _ = NaN"

fun mathMax :: "jsnumber \<Rightarrow> jsnumber \<Rightarrow> jsnumber" where
  "mathMax (Num a) (Num b) = Num (max a b)"
| "mathMax _ _ = NaN"

definition baseSettings :: "(string \<times> VoiceSettings) list" where
  "baseSettings =
     [(''sensuel'', \<lparr> stability = Num (55 / 100), similarity_boost = Num (88 / 100) \<rparr>),
      (''excite'', \<lparr> stability = Num (30 / 100), similarity_boost = Num (92 / 100) \<rparr>),
      (''jouissance'', \<lparr> stability = Num (20 / 100), similarity_boost = Num (95 / 100) \<rparr>),
      (''murmure'', \<lparr> stability = Num (70 / 100), similarity_boost = Num (82 / 100) \<rparr>),
      (''intense'', \<lparr> stability = Num (32 / 100), similarity_boost = Num (90 / 100) \<rparr>),
      (''doux'', \<lparr> stability = Num (65 / 100), similarity_boost = Num (83 / 100) \<rparr>)]"

definition inheritedKeys :: "string list" where
  \<comment> \<open>the property names that an object literal inherits from \<open>Object.prototype\<close>\<close>
  "inheritedKeys =
     [''constructor'', ''hasOwnProperty'', ''isPrototypeOf'', ''propertyIsEnumerable'',
      ''toLocaleString'', ''toString'', ''valueOf'', ''__proto__'', ''__defineGetter__'',
      ''__defineSetter__'', ''__lookupGetter__'', ''__lookupSetter__'']"

definition getVoiceSettings :: "string \<Rightarrow> TextAnalysis \<Rightarrow> VoiceSettings" where
  "getVoiceSettings emotion analysis =
     (let settings =
            (case map_of baseSettings emotion of
               Some own \<Rightarrow> own
             | None \<Rightarrow>
                 if emotion \<in> set inheritedKeys
                 then \<lparr> stability = NaN, similarity_boost = NaN \<rparr>
                 else (case map_of baseSettings ''sensuel'' of
                         Some own \<Rightarrow> own
                       | None \<Rightarrow> \<lparr> stability = NaN, similarity_boost = NaN \<rparr>))
      in \<lparr> stability = mathMax (Num (15 / 100)) (mathMin (Num (75 / 100))
             (jsTimes (stability settings)
                (jsMinus (Num 1) (jsTimes (intensity analysis) (Num (3 / 10)))))),
           similarity_boost = mathMax (Num (75 / 100)) (mathMin (Num (98 / 100))
             (jsPlus (similarity_boost settings)
                (jsTimes (emotionalProgression analysis) (Num (15 / 100))))) \<rparr>)"

section \<open>The transition of a segment\<close>

lemma includesStr_iff: "includesStr s sub \<longleftrightarrow> (\<exists>p q. s = p @ sub @ q)"
proof (induction s)
  case Nil
  show ?case by auto
next
  case (Cons c cs)
  show ?case
  proof
    assume "includesStr (c # cs) sub"
    then consider "prefix sub (c # cs)" | "includesStr cs sub" by auto
    then show "\<exists>p q. c # cs = p @ sub @ q"
    proof cases
      case 1
      then obtain q where "c # cs = sub @ q" by (auto simp: prefix_def)
      then have "c # cs = [] @ sub @ q" by simp
      then show ?thesis by blast
    next
      case 2
      with Cons.IH obtain p q where "cs = p @ sub @ q" by blast
      then have "c # cs = (c # p) @ sub @ q" by simp
      then show ?thesis by blast
    qed
  next
    assume "\<exists>p q. c # cs = p @ sub @ q"
    then obtain p q where pq: "c # cs = p @ sub @ q" by blast
    show "includesStr (c # cs) sub"
    proof (cases p)
      case Nil
      with pq have "prefix sub (c # cs)" by (simp add: prefix_def)
      then show ?thesis by simp
    next
      case (Cons a p')
      with pq have "cs = p' @ sub @ q" by simp
      with Cons.IH have "includesStr cs sub" by blast
      then show ?thesis by simp
    qed
  qed
qed

lemma ends_with_iff:
  "(case rev s of [] \<Rightarrow> False | c # _ \<Rightarrow> c \<in> A) \<longleftrightarrow> (\<exists>p c. s = p @ [c] \<and> c \<in> A)"
  by (cases s rule: rev_cases) auto

text \<open>
  C7. calculateTiming chooses the transition from the segment's own text: a text that
  contains three dots in a row gives a crossfade of 1 second; otherwise a text whose
  last character, once trimmed, is a full stop, an exclamation mark or a question mark
  gives a cut of 0.2 seconds; otherwise an overlap of 0.5 seconds. The speech rate plays
  no part in it.
\<close>

theorem calculateTiming_transition:
  "transitionType (calculateTiming txt rate) =
     (if (\<exists>p q. txt = p @ ''...'' @ q) then Crossfade
      else if (\<exists>p c. trim txt = p @ [c] \<and> c \<in> {CHR ''.'', CHR ''!'', CHR ''?''}) then Cut
      else Overlap)
   \<and> transitionDuration (calculateTiming txt rate) =
     (case transitionType (calculateTiming txt rate) of
        Crossfade \<Rightarrow> 1 | Cut \<Rightarrow> 2 / 10 | Overlap \<Rightarrow> 5 / 10)"
proof -
  have e: "includesStr txt ''...'' \<longleftrightarrow> (\<exists>p q. txt = p @ ''...'' @ q)"
    by (rule includesStr_iff)
  have p: "(case rev (trim txt) of [] \<Rightarrow> False | c # _ \<Rightarrow> c \<in> set ''.!?'')
           \<longleftrightarrow> (\<exists>p c. trim txt = p @ [c] \<and> c \<in> {CHR ''.'', CHR ''!'', CHR ''?''})"
    using ends_with_iff [where s = "trim txt" and A = "set ''.!?''"] by simp
  show ?thesis
    unfolding calculateTiming_def Let_def e p by simp
qed

theorem calculateTiming_transition_witness:
  "transitionType (calculateTiming ''Viens... plus pres'' ''lent'') = Crossfade
   \<and> transitionDuration (calculateTiming ''Viens... plus pres'' ''lent'') = 1"
proof -
  have "''Viens... plus pres'' = ''Viens'' @ ''...'' @ '' plus pres''"
    by simp
  then have "\<exists>p q. ''Viens... plus pres'' = p @ ''...'' @ q"
    by blast
  then show ?thesis
    using calculateTiming_transition [of "''Viens... plus pres''" "''lent''"] by simp
qed

section \<open>The timeline\<close>

lemma splitSpaces_nonempty: "splitSpaces s \<noteq> []"
  by (induction s rule: splitSpaces.induct) (auto split: list.splits)

lemma estimatedDuration_pos: "0 < estimatedDuration (calculateTiming txt rate)"
proof -
  have "0 < length (splitSpaces (trim txt))"
    using splitSpaces_nonempty [of "trim txt"] by simp
  then show ?thesis
    by (simp add: calculateTiming_def Let_def)
qed

lemma timingPass_length: "length (timingPass n t i ss) = length ss"
  by (induction ss arbitrary: t i) (simp_all add: Let_def)

lemma timingPass_head:
  "timingPass n t i (s # ss) ! 0 =
     s\<lparr> startTime := Some t,
        EnvironmentDetection.duration := Some (estimatedDuration (calculateTiming (segment s) (speechRate s))),
        EnvironmentDetection.fadeIn := Some (TimingInfo.fadeIn (calculateTiming (segment s) (speechRate s))),
        EnvironmentDetection.fadeOut := Some (TimingInfo.fadeOut (calculateTiming (segment s) (speechRate s))),
        transition := Some \<lparr> Transition.type = transitionType (calculateTiming (segment s) (speechRate s)),
                              Transition.duration = transitionDuration (calculateTiming (segment s) (speechRate s)) \<rparr> \<rparr>"
  by (simp add: Let_def)

lemma timingPass_step:
  assumes "k + 1 < length ss" and "i + length ss = n"
  shows "\<exists>s d tr. startTime (timingPass n t i ss ! k) = Some s
           \<and> EnvironmentDetection.duration (timingPass n t i ss ! k) = Some d
           \<and> d = estimatedDuration (calculateTiming (segment (ss ! k)) (speechRate (ss ! k)))
           \<and> transition (timingPass n t i ss ! k) = Some tr
           \<and> Transition.type tr = transitionType (calculateTiming (segment (ss ! k)) (speechRate (ss ! k)))
           \<and> Transition.duration tr = transitionDuration (calculateTiming (segment (ss ! k)) (speechRate (ss ! k)))
           \<and> startTime (timingPass n t i ss ! (k + 1)) =
               Some (if Transition.type tr = Crossfade then s + d - Transition.duration tr else s + d)"
  using assms
proof (induction ss arbitrary: t i k)
  case Nil
  then show ?case by simp
next
  case (Cons a ss)
  show ?case
  proof (cases k)
    case 0
    with Cons.prems obtain b rest where ss: "ss = b # rest"
      by (cases ss) auto
    have notlast: "int i < int n - 1"
      using Cons.prems ss by simp
    show ?thesis
      unfolding 0 ss using notlast by (simp add: Let_def)
  next
    case (Suc k')
    have "k' + 1 < length ss" and "Suc i + length ss = n"
      using Cons.prems Suc by simp_all
    from Cons.IH [OF this] show ?thesis
      unfolding Suc by (simp add: Let_def)
  qed
qed

lemma timeline_step:
  assumes "k + 1 < length segs"
  shows "\<exists>s d tr. startTime (addTiming segs ! k) = Some s
           \<and> EnvironmentDetection.duration (addTiming segs ! k) = Some d
           \<and> 0 < d
           \<and> transition (addTiming segs ! k) = Some tr
           \<and> (Transition.type tr = Crossfade \<longrightarrow> Transition.duration tr = 1)
           \<and> startTime (addTiming segs ! (k + 1)) =
               Some (if Transition.type tr = Crossfade then s + d - Transition.duration tr else s + d)"
proof -
  let ?t = "calculateTiming (segment (segs ! k)) (speechRate (segs ! k))"
  from timingPass_step [of k segs 0 "length segs" 0] assms obtain s d tr where
    "startTime (addTiming segs ! k) = Some s"
    "EnvironmentDetection.duration (addTiming segs ! k) = Some d"
    "d = estimatedDuration ?t"
    "transition (addTiming segs ! k) = Some tr"
    "Transition.type tr = transitionType ?t"
    "Transition.duration tr = transitionDuration ?t"
    "startTime (addTiming segs ! (k + 1)) =
       Some (if Transition.type tr = Crossfade then s + d - Transition.duration tr else s + d)"
    unfolding addTiming_def by auto
  moreover have "0 < estimatedDuration ?t"
    by (rule estimatedDuration_pos)
  moreover have "transitionType ?t = Crossfade \<longrightarrow> transitionDuration ?t = 1"
    by (simp add: calculateTiming_def Let_def)
  ultimately show ?thesis by auto
qed

text \<open>
  C3. The start times follow the recurrence: the first segment starts at 0; a segment
  that is followed by another one hands it its own start plus its duration, less its
  transition duration when its transition is a crossfade. The duration and the
  transition are the ones that calculateTiming gives for the segment's own text.
\<close>

theorem timeline_recurrence:
  "(segs \<noteq> [] \<longrightarrow> startTime (addTiming segs ! 0) = Some 0)
   \<and> (\<forall>k. k + 1 < length segs \<longrightarrow>
         (\<exists>s d tr. startTime (addTiming segs ! k) = Some s
            \<and> EnvironmentDetection.duration (addTiming segs ! k) = Some d
            \<and> d = estimatedDuration (calculateTiming (segment (segs ! k)) (speechRate (segs ! k)))
            \<and> transition (addTiming segs ! k) = Some tr
            \<and> Transition.type tr = transitionType (calculateTiming (segment (segs ! k)) (speechRate (segs ! k)))
            \<and> Transition.duration tr = transitionDuration (calculateTiming (segment (segs ! k)) (speechRate (segs ! k)))
            \<and> startTime (addTiming segs ! (k + 1)) =
                Some (if Transition.type tr = Crossfade then s + d - Transition.duration tr else s + d)))"
proof (intro conjI impI allI)
  assume "segs \<noteq> []"
  then obtain a rest where "segs = a # rest" by (cases segs) auto
  then show "startTime (addTiming segs ! 0) = Some 0"
    by (simp add: addTiming_def Let_def)
next
  fix k
  assume "k + 1 < length segs"
  then show "\<exists>s d tr. startTime (addTiming segs ! k) = Some s
            \<and> EnvironmentDetection.duration (addTiming segs ! k) = Some d
            \<and> d = estimatedDuration (calculateTiming (segment (segs ! k)) (speechRate (segs ! k)))
            \<and> transition (addTiming segs ! k) = Some tr
            \<and> Transition.type tr = transitionType (calculateTiming (segment (segs ! k)) (speechRate (segs ! k)))
            \<and> Transition.duration tr = transitionDuration (calculateTiming (segment (segs ! k)) (speechRate (segs ! k)))
            \<and> startTime (addTiming segs ! (k + 1)) =
                Some (if Transition.type tr = Crossfade then s + d - Transition.duration tr else s + d)"
    unfolding addTiming_def by (rule timingPass_step) simp
qed

theorem timeline_recurrence_witness:
  "map localDetection [''Viens... plus pres de moi'', ''Encore !''] \<noteq> []
   \<and> 0 + 1 < length (map localDetection [''Viens... plus pres de moi'', ''Encore !''])
   \<and> startTime (addTiming (map localDetection [''Viens... plus pres de moi'', ''Encore !'']) ! 0) = Some 0
   \<and> startTime (addTiming (map localDetection [''Viens... plus pres de moi'', ''Encore !'']) ! 1) = Some (7 / 3)"
proof -
  let ?segs = "map localDetection [''Viens... plus pres de moi'', ''Encore !'']"
  have ne: "?segs \<noteq> []" by simp
  have l0: "0 + 1 < length ?segs" by simp
  have d0: "EnvironmentDetection.duration (addTiming ?segs ! 0) = Some (10 / 3)" by code_simp
  have t0: "transition (addTiming ?segs ! 0) = Some \<lparr> Transition.type = Crossfade, Transition.duration = 1 \<rparr>"
    by code_simp
  from timeline_recurrence [of ?segs] ne have s0: "startTime (addTiming ?segs ! 0) = Some 0"
    by blast
  from timeline_recurrence [of ?segs] l0 have
    "\<exists>s d tr. startTime (addTiming ?segs ! 0) = Some s
        \<and> EnvironmentDetection.duration (addTiming ?segs ! 0) = Some d
        \<and> d = estimatedDuration (calculateTiming (segment (?segs ! 0)) (speechRate (?segs ! 0)))
        \<and> transition (addTiming ?segs ! 0) = Some tr
        \<and> Transition.type tr = transitionType (calculateTiming (segment (?segs ! 0)) (speechRate (?segs ! 0)))
        \<and> Transition.duration tr = transitionDuration (calculateTiming (segment (?segs ! 0)) (speechRate (?segs ! 0)))
        \<and> startTime (addTiming ?segs ! (0 + 1)) =
            Some (if Transition.type tr = Crossfade then s + d - Transition.duration tr else s + d)"
    by blast
  with s0 d0 t0 have s1: "startTime (addTiming ?segs ! 1) = Some (7 / 3)"
    by auto
  from ne l0 s0 s1 show ?thesis by blast
qed

text \<open>
  A one-word paragraph with an ellipsis, in the local analysis, and a two-word segment
  spoken fast, in the remote analysis: the second segment starts before the first.
\<close>

theorem startTime_decreasing_counterexample:
  "map_sum id (map startTime)
     (analyzeTextEnvironments (Response 200 (Parsed Malformed))
        (''Oui...'' @ [CHR 0x0A, CHR 0x0A] @ ''encore''))
     = Inr [Some 0, Some (- (1 / 3))]
   \<and> map_sum id (map startTime)
     (analyzeTextEnvironments
        (Response 200 (Parsed (Segments
           [(defaultSegment ''Oh... oui'')\<lparr> vocal := (vocal (defaultSegment ''Oh... oui''))\<lparr> rhythm := ''rapide'' \<rparr> \<rparr>,
            defaultSegment ''encore''])))
        ''Oh... oui encore'')
     = Inr [Some 0, Some (- (1 / 5))]"
  by code_simp

text \<open>
  C2. The start times are not always non-decreasing. For every index k with a
  following segment: the duration of segment k is positive; when its transition is not
  a crossfade the next start is its start plus its duration, hence not before its start;
  when its transition is a crossfade, the transition lasts 1 second and the next start
  is its start plus its duration less 1, which nothing compares with its start.
\<close>

theorem startTime_step_bound:
  assumes "k + 1 < length segs"
  shows "\<exists>s s' d tr. startTime (addTiming segs ! k) = Some s
           \<and> startTime (addTiming segs ! (k + 1)) = Some s'
           \<and> EnvironmentDetection.duration (addTiming segs ! k) = Some d
           \<and> transition (addTiming segs ! k) = Some tr
           \<and> 0 < d
           \<and> (Transition.type tr \<noteq> Crossfade \<longrightarrow> s' = s + d \<and> s \<le> s')
           \<and> (Transition.type tr = Crossfade \<longrightarrow> Transition.duration tr = 1 \<and> s' = s + d - 1)"
proof -
  from timeline_step [OF assms] obtain s d tr where
    s: "startTime (addTiming segs ! k) = Some s"
    and d: "EnvironmentDetection.duration (addTiming segs ! k) = Some d"
    and dpos: "0 < d" and tr: "transition (addTiming segs ! k) = Some tr"
    and trd: "Transition.type tr = Crossfade \<longrightarrow> Transition.duration tr = 1"
    and nxt: "startTime (addTiming segs ! (k + 1)) =
                Some (if Transition.type tr = Crossfade then s + d - Transition.duration tr else s + d)"
    by blast
  let ?s' = "if Transition.type tr = Crossfade then s + d - Transition.duration tr else s + d"
  have "Transition.type tr \<noteq> Crossfade \<longrightarrow> ?s' = s + d \<and> s \<le> ?s'"
    using dpos by auto
  moreover have "Transition.type tr = Crossfade \<longrightarrow> Transition.duration tr = 1 \<and> ?s' = s + d - 1"
    using trd by auto
  ultimately show ?thesis using s d tr nxt dpos by blast
qed

theorem startTime_step_bound_witness:
  "0 + 1 < length (map localDetection [''Encore !'', ''et puis''])
   \<and> (\<exists>s s'. startTime (addTiming (map localDetection [''Encore !'', ''et puis'']) ! 0) = Some s
        \<and> startTime (addTiming (map localDetection [''Encore !'', ''et puis'']) ! (0 + 1)) = Some s'
        \<and> s \<le> s')"
proof -
  let ?segs = "map localDetection [''Encore !'', ''et puis'']"
  have l0: "0 + 1 < length ?segs" by simp
  have t0: "transition (addTiming ?segs ! 0) = Some \<lparr> Transition.type = Cut, Transition.duration = 1 / 5 \<rparr>"
    by code_simp
  from startTime_step_bound [OF l0] obtain s s' d tr where
    "startTime (addTiming ?segs ! 0) = Some s" "startTime (addTiming ?segs ! (0 + 1)) = Some s'"
    "transition (addTiming ?segs ! 0) = Some tr"
    "Transition.type tr \<noteq> Crossfade \<longrightarrow> s' = s + d \<and> s \<le> s'"
    by blast
  with t0 have "startTime (addTiming ?segs ! 0) = Some s
      \<and> startTime (addTiming ?segs ! (0 + 1)) = Some s' \<and> s \<le> s'"
    by auto
  with l0 show ?thesis by blast
qed

section \<open>The tone of a remote segment\<close>

text \<open>
  C10. The tone of a remote segment is 'jouissance' exactly when its vocal type is
  'cri' and its intensity is at most 80; an intensity above 90 with a vocal type that is
  neither 'cri' nor 'gemissement' (written with its accent) gives 'excite', since the
  test for more than 80 comes first.
\<close>

theorem jouissance_only_for_cri:
  "(emotionalTone (toDetection seg) = ''jouissance''
      \<longleftrightarrow> VocalCharacteristics.type (vocal seg) = ''cri'' \<and> VocalCharacteristics.intensity (vocal seg) \<le> 80)
   \<and> (VocalCharacteristics.type (vocal seg) \<noteq> ''cri''
        \<and> VocalCharacteristics.type (vocal seg) \<noteq> gemissement
        \<and> VocalCharacteristics.intensity (vocal seg) > 90
      \<longrightarrow> emotionalTone (toDetection seg) = ''excite'')"
  by (auto simp: toDetection_def Let_def gemissement_def)

theorem jouissance_only_for_cri_witness:
  "VocalCharacteristics.type (vocal ((defaultSegment ''Oui'')\<lparr> vocal :=
       \<lparr> VocalCharacteristics.intensity = 95, VocalCharacteristics.type = ''normal'', rhythm = ''rapide'', pitch = 5 \<rparr> \<rparr>)) \<noteq> ''cri''
   \<and> VocalCharacteristics.type (vocal ((defaultSegment ''Oui'')\<lparr> vocal :=
       \<lparr> VocalCharacteristics.intensity = 95, VocalCharacteristics.type = ''normal'', rhythm = ''rapide'', pitch = 5 \<rparr> \<rparr>)) \<noteq> gemissement
   \<and> VocalCharacteristics.intensity (vocal ((defaultSegment ''Oui'')\<lparr> vocal :=
       \<lparr> VocalCharacteristics.intensity = 95, VocalCharacteristics.type = ''normal'', rhythm = ''rapide'', pitch = 5 \<rparr> \<rparr>)) > 90
   \<and> emotionalTone (toDetection ((defaultSegment ''Oui'')\<lparr> vocal :=
       \<lparr> VocalCharacteristics.intensity = 95, VocalCharacteristics.type = ''normal'', rhythm = ''rapide'', pitch = 5 \<rparr> \<rparr>)) = ''excite''
   \<and> emotionalTone (toDetection ((defaultSegment ''Oui'')\<lparr> vocal :=
       \<lparr> VocalCharacteristics.intensity = 95, VocalCharacteristics.type = ''normal'', rhythm = ''rapide'', pitch = 5 \<rparr> \<rparr>)) \<noteq> ''jouissance''
   \<and> emotionalTone (toDetection ((defaultSegment ''Oui'')\<lparr> vocal :=
       \<lparr> VocalCharacteristics.intensity = 80, VocalCharacteristics.type = ''cri'', rhythm = ''rapide'', pitch = 5 \<rparr> \<rparr>)) = ''jouissance''"
  using jouissance_only_for_cri [of "(defaultSegment ''Oui'')\<lparr> vocal :=
       \<lparr> VocalCharacteristics.intensity = 95, VocalCharacteristics.type = ''normal'', rhythm = ''rapide'', pitch = 5 \<rparr> \<rparr>"]
    jouissance_only_for_cri [of "(defaultSegment ''Oui'')\<lparr> vocal :=
       \<lparr> VocalCharacteristics.intensity = 80, VocalCharacteristics.type = ''cri'', rhythm = ''rapide'', pitch = 5 \<rparr> \<rparr>"]
  by (simp add: gemissement_def)


section \<open>Blank environment labels\<close>

lemma isSpace_cases:
  "isSpace c \<longleftrightarrow> c = CHR 0x09 \<or> c = CHR 0x0A \<or> c = CHR 0x0B \<or> c = CHR 0x0C \<or> c = CHR 0x0D
      \<or> c = CHR 0x20 \<or> c = CHR 0xA0"
  by (simp add: isSpace_def)

lemma isSpace_lowerChar: "isSpace c \<Longrightarrow> lowerChar c = c"
  by (auto simp: isSpace_cases lowerChar_def)

lemma isSpace_stripAccent: "isSpace c \<Longrightarrow> stripAccent c = c"
  by (auto simp: isSpace_cases stripAccent_def)

lemma dropWhile_all: "\<forall>c\<in>set cs. P c \<Longrightarrow> dropWhile P cs = []"
  by (induction cs) auto

lemma normalizeEnv_spaces:
  assumes "env \<noteq> []" and "\<forall>c\<in>set env. isSpace c"
  shows "normalizeEnv env = ''_''"
proof -
  obtain c cs where env: "env = c # cs"
    using assms(1) by (cases env) auto
  have c: "isSpace c"
    using assms(2) env by simp
  have cs: "dropWhile isSpace cs = []"
    using assms(2) env by (simp add: dropWhile_all)
  have "map stripAccent (toLowerCase env) = env"
    using assms(2) by (simp add: toLowerCase_def isSpace_lowerChar isSpace_stripAccent map_idI)
  then have "normalizeEnv env = spacesToUnderscore (c # cs)"
    by (simp add: normalizeEnv_def env)
  also have "\<dots> = CHR ''_'' # spacesToUnderscore (dropWhile isSpace cs)"
    using c by simp
  also have "\<dots> = ''_''"
    unfolding cs by simp
  finally show ?thesis .
qed

lemma searchSounds_underscore: "searchSounds ''_'' environmentSounds = None"
  by code_simp

lemma default_sounds: "the_default (map_of environmentSounds ''default'') = [''calm-nature-sounds-196258.mp3'']"
  by code_simp

text \<open>
  The claim about white space fails: one blank is normalised to an underscore, which
  no key contains and which contains no key, so the default entry is returned.
\<close>

theorem blank_environment_counterexample:
  "mapEnvironmentToSounds '' '' = [''calm-nature-sounds-196258.mp3'']
   \<and> mapEnvironmentToSounds '' '' \<noteq> [''ocean-waves-112906.mp3'', ''sea-and-seagull-wave-5932.mp3'']"
  by code_simp

text \<open>
  C9. For the empty string, mapEnvironmentToSounds does not return the default entry:
  every key contains the empty string, so the first entry, 'plage', is returned. For an
  input of white space only that is not empty, the normalised input is one underscore,
  no entry matches, and the default entry is returned.
\<close>

theorem empty_environment_sounds:
  "mapEnvironmentToSounds [] = [''ocean-waves-112906.mp3'', ''sea-and-seagull-wave-5932.mp3'']
   \<and> (\<forall>env. env \<noteq> [] \<and> (\<forall>c\<in>set env. isSpace c)
         \<longrightarrow> mapEnvironmentToSounds env = [''calm-nature-sounds-196258.mp3''])"
proof (intro conjI allI impI)
  show "mapEnvironmentToSounds [] = [''ocean-waves-112906.mp3'', ''sea-and-seagull-wave-5932.mp3'']"
    by code_simp
next
  fix env
  assume "env \<noteq> [] \<and> (\<forall>c\<in>set env. isSpace c)"
  then have "normalizeEnv env = ''_''"
    by (simp add: normalizeEnv_spaces)
  then show "mapEnvironmentToSounds env = [''calm-nature-sounds-196258.mp3'']"
    by (simp add: mapEnvironmentToSounds_def searchSounds_underscore default_sounds)
qed

theorem empty_environment_sounds_witness:
  "[CHR 0x09, CHR '' ''] \<noteq> [] \<and> isSpace (CHR 0x09) \<and> isSpace CHR '' ''
   \<and> mapEnvironmentToSounds [CHR 0x09, CHR '' ''] = [''calm-nature-sounds-196258.mp3'']
   \<and> mapEnvironmentToSounds [] = [''ocean-waves-112906.mp3'', ''sea-and-seagull-wave-5932.mp3'']"
  using empty_environment_sounds by (simp add: isSpace_def)

section \<open>The cleaned text\<close>

lemma isSpace_isNumChar: "isSpace c \<Longrightarrow> isNumChar c"
  by (simp add: isNumChar_def)

lemma isDigit_isNumChar: "isDigit c \<Longrightarrow> isNumChar c"
  by (simp add: isNumChar_def)

lemma last_dropWhile_kept:
  assumes "xs \<noteq> []" and "\<not> P (last xs)"
  shows "dropWhile P xs \<noteq> [] \<and> last (dropWhile P xs) = last xs"
  using assms by (induction xs) (auto split: if_splits)

lemma dropWhile_eq_ConsD:
  assumes "dropWhile P xs = d # rest"
  shows "xs = takeWhile P xs @ d # rest"
  using assms takeWhile_dropWhile_id [of P xs] by simp

lemma last_after_numbers:
  assumes "cs \<noteq> []" and "\<not> isNumChar (last cs)" and "dropWhile isDigit cs = d # rest"
    and "d = CHR ''.''"
  shows "dropWhile isSpace rest \<noteq> [] \<and> last (dropWhile isSpace rest) = last cs"
proof -
  have cs: "cs = takeWhile isDigit cs @ d # rest"
    using assms(3) by (rule dropWhile_eq_ConsD)
  have "rest \<noteq> []"
  proof
    assume "rest = []"
    with cs have "last cs = d" by (metis last_snoc)
    with assms(2,4) show False by (simp add: isNumChar_def)
  qed
  then have "last cs = last rest"
    using cs by (metis last_ConsR last_appendR list.distinct(1))
  moreover have "\<not> isSpace (last rest)"
    using assms(2) calculation isSpace_isNumChar by auto
  ultimately show ?thesis
    using last_dropWhile_kept [of rest isSpace] \<open>rest \<noteq> []\<close> by simp
qed

lemma stripListNumbers_last:
  "s \<noteq> [] \<Longrightarrow> \<not> isNumChar (last s) \<Longrightarrow>
     stripListNumbers s \<noteq> [] \<and> last (stripListNumbers s) = last s"
proof (induction s rule: stripListNumbers.induct)
  case 1
  then show ?case by simp
next
  case (2 c cs)
  show ?case
  proof (cases "cs = []")
    case True
    then show ?thesis by simp
  next
    case ne: False
    with "2.prems" have lastcs: "\<not> isNumChar (last cs)" by simp
    have lastc: "last (c # cs) = last cs" using ne by simp
    show ?thesis
    proof (cases "dropWhile isDigit cs")
      case Nil
      have eq: "stripListNumbers (c # cs) = c # stripListNumbers cs"
        by (simp add: Nil)
      from "2.IH"(1) [OF Nil ne lastcs] show ?thesis
        unfolding eq lastc by simp
    next
      case (Cons d rest)
      show ?thesis
      proof (cases "c = CHR 0x0A \<and> takeWhile isDigit cs \<noteq> [] \<and> d = CHR ''.''")
        case True
        have eq: "stripListNumbers (c # cs) = CHR 0x0A # stripListNumbers (dropWhile isSpace rest)"
          using True by (simp add: Cons)
        from last_after_numbers [OF ne lastcs Cons] True
        have r: "dropWhile isSpace rest \<noteq> []" "last (dropWhile isSpace rest) = last cs"
          by simp_all
        from "2.IH"(2) [OF Cons True r(1)] r lastcs
        have "stripListNumbers (dropWhile isSpace rest) \<noteq> []
              \<and> last (stripListNumbers (dropWhile isSpace rest)) = last cs"
          by simp
        then show ?thesis
          unfolding eq lastc by simp
      next
        case False
        have eq: "stripListNumbers (c # cs) = c # stripListNumbers cs"
          using False by (auto simp add: Cons)
        from "2.IH"(3) [OF Cons False ne lastcs] show ?thesis
          unfolding eq lastc by simp
      qed
    qed
  qed
qed

lemma stripListNumbers_hd:
  "s \<noteq> [] \<Longrightarrow> \<not> isNumChar (hd s) \<Longrightarrow> hd (stripListNumbers s) = hd s"
proof (cases s)
  case Nil
  assume "s \<noteq> []"
  with Nil show ?thesis by simp
next
  case (Cons c cs)
  assume "\<not> isNumChar (hd s)"
  with Cons have "c \<noteq> CHR 0x0A"
    by (auto simp: isNumChar_def isSpace_def)
  then show ?thesis
    unfolding Cons by (simp split: list.splits)
qed


lemma stripIsolatedNumbers_last:
  "s \<noteq> [] \<Longrightarrow> \<not> isNumChar (last s) \<Longrightarrow>
     stripIsolatedNumbers s \<noteq> [] \<and> last (stripIsolatedNumbers s) = last s"
proof (induction s rule: stripIsolatedNumbers.induct)
  case 1
  then show ?case by simp
next
  case (2 c cs)
  define r where "r = dropWhile isSpace cs"
  define r' where "r' = dropWhile isDigit r"
  show ?case
  proof (cases "isSpace c \<and> takeWhile isDigit r \<noteq> [] \<and> takeWhile isSpace r' \<noteq> []")
    case True
    have eq: "stripIsolatedNumbers (c # cs) = CHR '' '' # stripIsolatedNumbers (dropWhile isSpace r')"
      using True by (simp add: r_def r'_def Let_def)
    have ne: "cs \<noteq> []"
      using True by (auto simp: r_def)
    with "2.prems" have lastcs: "\<not> isNumChar (last cs)" by simp
    have lastc: "last (c # cs) = last cs" using ne by simp
    have "\<not> isSpace (last cs)"
      using lastcs isSpace_isNumChar by blast
    from last_dropWhile_kept [of cs isSpace, OF ne this]
    have 1: "r \<noteq> []" "last r = last cs" by (simp_all add: r_def)
    then have "\<not> isDigit (last r)"
      using lastcs isDigit_isNumChar by auto
    from last_dropWhile_kept [of r isDigit, OF 1(1) this]
    have 2: "r' \<noteq> []" "last r' = last cs" using 1 by (simp_all add: r'_def)
    then have "\<not> isSpace (last r')"
      using lastcs isSpace_isNumChar by auto
    from last_dropWhile_kept [of r' isSpace, OF 2(1) this]
    have 3: "dropWhile isSpace r' \<noteq> []" "last (dropWhile isSpace r') = last cs"
      using 2 by simp_all
    from "2.IH"(1) [OF r_def r'_def True 3(1)] 3 lastcs
    have "stripIsolatedNumbers (dropWhile isSpace r') \<noteq> []
          \<and> last (stripIsolatedNumbers (dropWhile isSpace r')) = last cs"
      by simp
    then show ?thesis
      unfolding eq lastc by simp
  next
    case False
    have eq: "stripIsolatedNumbers (c # cs) = c # stripIsolatedNumbers cs"
      using False by (auto simp add: r_def r'_def Let_def)
    show ?thesis
    proof (cases "cs = []")
      case True
      then show ?thesis by simp
    next
      case ne: False
      with "2.prems" have lastcs: "\<not> isNumChar (last cs)" by simp
      have lastc: "last (c # cs) = last cs" using ne by simp
      from "2.IH"(2) [OF r_def r'_def False ne lastcs] show ?thesis
        unfolding eq lastc by simp
    qed
  qed
qed

lemma stripIsolatedNumbers_hd:
  "s \<noteq> [] \<Longrightarrow> \<not> isNumChar (hd s) \<Longrightarrow> hd (stripIsolatedNumbers s) = hd s"
proof (cases s)
  case Nil
  assume "s \<noteq> []"
  with Nil show ?thesis by simp
next
  case (Cons c cs)
  assume "\<not> isNumChar (hd s)"
  with Cons have "\<not> isSpace c"
    by (auto simp: isNumChar_def)
  then show ?thesis
    unfolding Cons by (simp add: Let_def)
qed

lemma clean_ends_strip: "cleanEnds (stripTrailingNumChars (stripLeadingNumChars s))"
proof -
  define z where "z = dropWhile isNumChar s"
  define y where "y = rev (dropWhile isNumChar (rev z))"
  have z: "z = y @ rev (takeWhile isNumChar (rev z))"
    unfolding y_def by (metis rev_append rev_rev_ident takeWhile_dropWhile_id)
  show ?thesis
  proof (cases "y = []")
    case True
    then show ?thesis
      by (simp add: stripTrailingNumChars_def stripLeadingNumChars_def y_def z_def)
  next
    case False
    then have "dropWhile isNumChar (rev z) \<noteq> []"
      by (simp add: y_def)
    then have "\<not> isNumChar (hd (dropWhile isNumChar (rev z)))"
      by (rule hd_dropWhile)
    then have l: "\<not> isNumChar (last y)"
      using False by (simp add: y_def last_rev)
    have "z \<noteq> []" using False z by auto
    then have "\<not> isNumChar (hd z)"
      unfolding z_def by (rule hd_dropWhile)
    moreover have "hd z = hd y"
      using False z by (metis hd_append2)
    ultimately have "\<not> isNumChar (hd y)" by simp
    with l show ?thesis
      by (simp add: stripTrailingNumChars_def stripLeadingNumChars_def y_def z_def)
  qed
qed

lemma clean_ends_trim: "cleanEnds s \<Longrightarrow> trim s = s"
proof (cases "s = []")
  case True
  then show ?thesis by (simp add: trim_def)
next
  case False
  assume "cleanEnds s"
  with False have h: "\<not> isSpace (hd s)" and l: "\<not> isSpace (last s)"
    using isSpace_isNumChar by (auto simp:)
  have 1: "dropWhile isSpace s = s"
    using False h by (cases s) auto
  have "rev s \<noteq> []" using False by simp
  moreover have "\<not> isSpace (hd (rev s))"
    using False l by (simp add: hd_rev)
  ultimately have "dropWhile isSpace (rev s) = rev s"
    by (cases "rev s") auto
  with 1 show ?thesis by (simp add: trim_def)
qed

lemma clean_ends_cleanText: "cleanEnds (cleanText s)"
proof -
  define a where "a = stripTrailingNumChars (stripLeadingNumChars (stripLeadingNumber s))"
  define b where "b = stripListNumbers a"
  define c where "c = stripIsolatedNumbers b"
  have a: "cleanEnds a"
    unfolding a_def by (rule clean_ends_strip)
  have b: "cleanEnds b"
  proof (cases "a = []")
    case True
    then show ?thesis by (simp add: b_def)
  next
    case False
    with a stripListNumbers_last [of a] stripListNumbers_hd [of a] show ?thesis
      by (auto simp: b_def)
  qed
  have c: "cleanEnds c"
  proof (cases "b = []")
    case True
    then show ?thesis by (simp add: c_def)
  next
    case False
    with b stripIsolatedNumbers_last [of b] stripIsolatedNumbers_hd [of b] show ?thesis
      by (auto simp: c_def)
  qed
  have "cleanText s = trim c"
    by (simp add: cleanText_def a_def b_def c_def)
  with c show ?thesis
    by (simp add: clean_ends_trim)
qed

section \<open>What the pipeline returns\<close>

lemma timingPass_fields:
  "k < length ss \<Longrightarrow>
     segment (timingPass n t i ss ! k) = segment (ss ! k)
     \<and> emotionalTone (timingPass n t i ss ! k) = emotionalTone (ss ! k)
     \<and> EnvironmentDetection.environment (timingPass n t i ss ! k) = EnvironmentDetection.environment (ss ! k)
     \<and> speechRate (timingPass n t i ss ! k) = speechRate (ss ! k)
     \<and> volume (timingPass n t i ss ! k) = volume (ss ! k)
     \<and> elevenlabsParams (timingPass n t i ss ! k) = elevenlabsParams (ss ! k)"
proof (induction ss arbitrary: t i k)
  case Nil
  then show ?case by simp
next
  case (Cons a ss)
  show ?case
  proof (cases k)
    case 0
    show ?thesis unfolding 0 by (simp add: Let_def)
  next
    case (Suc k')
    with Cons.prems have "k' < length ss" by simp
    from Cons.IH [OF this] show ?thesis
      unfolding Suc by (simp add: Let_def)
  qed
qed

lemma addTiming_length: "length (addTiming ds) = length ds"
  by (simp add: addTiming_def timingPass_length)

lemma addTiming_fields:
  "k < length ds \<Longrightarrow>
     segment (addTiming ds ! k) = segment (ds ! k)
     \<and> emotionalTone (addTiming ds ! k) = emotionalTone (ds ! k)
     \<and> EnvironmentDetection.environment (addTiming ds ! k) = EnvironmentDetection.environment (ds ! k)
     \<and> speechRate (addTiming ds ! k) = speechRate (ds ! k)
     \<and> volume (addTiming ds ! k) = volume (ds ! k)
     \<and> elevenlabsParams (addTiming ds ! k) = elevenlabsParams (ds ! k)"
  unfolding addTiming_def by (rule timingPass_fields)

lemma analyzeTextWithGrok_cases:
  "analyzeTextWithGrok fr txt =
     (case grokRequest fr of Inl err \<Rightarrow> Inr (Segments [defaultSegment txt]) | Inr v \<Rightarrow> Inr v)"
  by (simp add: analyzeTextWithGrok_def)

lemma analyzeTextWithGrok_returns: "\<exists>v. analyzeTextWithGrok fr txt = Inr v"
  by (simp add: analyzeTextWithGrok_def split: sum.splits)

lemma pipeline_remote:
  "analyzeTextWithGrok fr txt = Inr (Segments segs) \<Longrightarrow>
     analyzeTextEnvironments fr txt = Inr (addTiming (map toDetection segs))"
  by (simp add: analyzeTextEnvironments_def remoteAnalysis_def)

lemma pipeline_local:
  "analyzeTextWithGrok fr txt = Inr Malformed \<Longrightarrow>
     analyzeTextEnvironments fr txt = analyzeTextLocally txt"
  by (simp add: analyzeTextEnvironments_def remoteAnalysis_def)

lemma analyzeTextLocally_eq:
  "analyzeTextLocally txt =
     Inr (addTiming (map localDetection
       (if filter (\<lambda>p. length (trim p) > 0) (splitParagraphs txt) \<noteq> []
        then filter (\<lambda>p. length (trim p) > 0) (splitParagraphs txt) else [txt])))"
  by (simp add: analyzeTextLocally_def localAnalysis_def Let_def)

lemma segment_toDetection:
  "segment (toDetection seg) =
     (if length (cleanText (text seg)) < 3 then text seg else cleanText (text seg))"
  by (auto simp: toDetection_def Let_def)

text \<open>
  A segment whose text is empty is left empty: the cleaned text is empty, and the
  text that is restored is the empty text.
\<close>

theorem empty_segment_counterexample:
  "map_sum id (map segment)
     (analyzeTextEnvironments (Response 200 (Parsed (Segments [defaultSegment '''']))) ''Viens'')
   = Inr ['''']"
  by code_simp

text \<open>
  C8. For every segment that the remote adapter returns, analyzeTextEnvironments
  removes the list numbers around the text: the cleaned text has no digit, dot or white
  space at either end. When the cleaned text has fewer than 3 characters (none
  included), the segment keeps the original text instead. No segment is dropped, and a
  segment text is empty only when the original text was empty.
\<close>

theorem cleaned_text_or_original:
  assumes "analyzeTextWithGrok fr txt = Inr (Segments segs)"
  shows "\<exists>rs. analyzeTextEnvironments fr txt = Inr rs \<and> length rs = length segs
           \<and> (\<forall>k<length segs.
                 segment (rs ! k) =
                   (if length (cleanText (text (segs ! k))) < 3 then text (segs ! k)
                    else cleanText (text (segs ! k)))
                 \<and> cleanEnds (cleanText (text (segs ! k)))
                 \<and> (segment (rs ! k) = [] \<longleftrightarrow> text (segs ! k) = []))"
proof -
  let ?rs = "addTiming (map toDetection segs)"
  have rs: "analyzeTextEnvironments fr txt = Inr ?rs"
    using assms by (rule pipeline_remote)
  have len: "length ?rs = length segs"
    by (simp add: addTiming_length)
  have each: "segment (?rs ! k) =
                   (if length (cleanText (text (segs ! k))) < 3 then text (segs ! k)
                    else cleanText (text (segs ! k)))
                 \<and> cleanEnds (cleanText (text (segs ! k)))
                 \<and> (segment (?rs ! k) = [] \<longleftrightarrow> text (segs ! k) = [])"
    if k: "k < length segs" for k
  proof -
    have s: "segment (?rs ! k) = segment (toDetection (segs ! k))"
      using addTiming_fields [of k "map toDetection segs"] k by simp
    have c: "cleanEnds (cleanText (text (segs ! k)))"
      by (rule clean_ends_cleanText)
    have e: "cleanText [] = []"
      by code_simp
    have "segment (toDetection (segs ! k)) = [] \<longleftrightarrow> text (segs ! k) = []"
      unfolding segment_toDetection using e by (cases "text (segs ! k) = []") auto
    with s c show ?thesis
      by (simp add: segment_toDetection)
  qed
  from rs len each show ?thesis by blast
qed

theorem cleaned_text_or_original_witness:
  "analyzeTextWithGrok (Response 200 (Parsed (Segments [defaultSegment ''1. Bonjour le 3 monde. 2.''])))
       ''Bonjour le monde''
     = Inr (Segments [defaultSegment ''1. Bonjour le 3 monde. 2.''])
   \<and> (\<exists>rs. analyzeTextEnvironments
              (Response 200 (Parsed (Segments [defaultSegment ''1. Bonjour le 3 monde. 2.''])))
              ''Bonjour le monde'' = Inr rs
           \<and> length rs = 1 \<and> segment (rs ! 0) = ''Bonjour le monde'')"
proof -
  let ?fr = "Response 200 (Parsed (Segments [defaultSegment ''1. Bonjour le 3 monde. 2.'']))"
  have a: "analyzeTextWithGrok ?fr ''Bonjour le monde''
             = Inr (Segments [defaultSegment ''1. Bonjour le 3 monde. 2.''])"
    by (simp add: analyzeTextWithGrok_def grokRequest_def responseOk_def)
  have c: "cleanText ''1. Bonjour le 3 monde. 2.'' = ''Bonjour le monde''"
    by code_simp
  from cleaned_text_or_original [OF a] obtain rs where
    "analyzeTextEnvironments ?fr ''Bonjour le monde'' = Inr rs" "length rs = 1"
    "segment (rs ! 0) =
       (if length (cleanText (text ([defaultSegment ''1. Bonjour le 3 monde. 2.''] ! 0))) < 3
        then text ([defaultSegment ''1. Bonjour le 3 monde. 2.''] ! 0)
        else cleanText (text ([defaultSegment ''1. Bonjour le 3 monde. 2.''] ! 0)))"
    by auto
  then have "analyzeTextEnvironments ?fr ''Bonjour le monde'' = Inr rs
           \<and> length rs = 1 \<and> segment (rs ! 0) = ''Bonjour le monde''"
    by (simp add: defaultSegment_def c)
  with a show ?thesis by blast
qed

section \<open>Blank texts and remote failures\<close>

lemma dropWhile_all_spaces: "\<forall>c\<in>set s. isSpace c \<Longrightarrow> dropWhile isSpace s = []"
  by (induction s) auto

lemma cleanText_blank:
  assumes "\<forall>c\<in>set txt. isSpace c"
  shows "cleanText txt = []"
proof -
  have 1: "stripLeadingNumber txt = txt"
    using assms by (simp add: stripLeadingNumber_def dropWhile_all_spaces)
  have "\<forall>c\<in>set txt. isNumChar c"
    using assms by (simp add: isNumChar_def)
  then have 2: "stripLeadingNumChars txt = []"
    by (simp add: stripLeadingNumChars_def)
  show ?thesis
    by (simp add: cleanText_def 1 2 stripTrailingNumChars_def trim_def)
qed

lemma splitParagraphs_chars: "p \<in> set (splitParagraphs s) \<Longrightarrow> set p \<subseteq> set s"
proof (induction s arbitrary: p rule: splitParagraphs.induct)
  case 1
  then show ?case by simp
next
  case (2 c cs)
  show ?case
  proof (cases "c = CHR 0x0A \<and> takeWhile (\<lambda>d. d = CHR 0x0A) cs \<noteq> []")
    case True
    with "2.prems" have "p = [] \<or> p \<in> set (splitParagraphs (dropWhile (\<lambda>d. d = CHR 0x0A) cs))"
      by simp
    then show ?thesis
    proof
      assume "p = []"
      then show ?thesis by simp
    next
      assume "p \<in> set (splitParagraphs (dropWhile (\<lambda>d. d = CHR 0x0A) cs))"
      from "2.IH"(1) [OF True this] have "set p \<subseteq> set (dropWhile (\<lambda>d. d = CHR 0x0A) cs)" .
      also have "\<dots> \<subseteq> set cs" by (rule set_dropWhileD [THEN subsetI])
      finally show ?thesis by auto
    qed
  next
    case False
    show ?thesis
    proof (cases "splitParagraphs cs")
      case Nil
      with "2.prems" False have "p = [c]" by auto
      then show ?thesis by simp
    next
      case (Cons q qs)
      with "2.prems" False have "p = c # q \<or> p \<in> set qs" by auto
      then show ?thesis
      proof
        assume p: "p = c # q"
        have "q \<in> set (splitParagraphs cs)" using Cons by simp
        from "2.IH"(2) [OF False this] p show ?thesis by auto
      next
        assume "p \<in> set qs"
        then have "p \<in> set (splitParagraphs cs)" using Cons by simp
        from "2.IH"(2) [OF False this] show ?thesis by auto
      qed
    qed
  qed
qed

lemma trim_blank: "\<forall>c\<in>set p. isSpace c \<Longrightarrow> trim p = []"
  by (simp add: trim_def dropWhile_all_spaces)

lemma analyzeTextLocally_blank:
  assumes "\<forall>c\<in>set txt. isSpace c"
  shows "analyzeTextLocally txt = Inr (addTiming [localDetection txt])"
proof -
  have "trim p = []" if "p \<in> set (splitParagraphs txt)" for p
    using splitParagraphs_chars [OF that] assms by (intro trim_blank) auto
  then have "filter (\<lambda>p. length (trim p) > 0) (splitParagraphs txt) = []"
    by (simp add: filter_empty_conv)
  then show ?thesis
    by (simp add: analyzeTextLocally_eq)
qed

lemma addTiming_single:
  "addTiming [d] =
     [d\<lparr> startTime := Some 0,
         EnvironmentDetection.duration := Some (estimatedDuration (calculateTiming (segment d) (speechRate d))),
         EnvironmentDetection.fadeIn := Some (TimingInfo.fadeIn (calculateTiming (segment d) (speechRate d))),
         EnvironmentDetection.fadeOut := Some (TimingInfo.fadeOut (calculateTiming (segment d) (speechRate d))),
         transition := Some \<lparr> Transition.type = transitionType (calculateTiming (segment d) (speechRate d)),
                               Transition.duration = transitionDuration (calculateTiming (segment d) (speechRate d)) \<rparr> \<rparr>]"
  by (simp add: addTiming_def Let_def)

lemma blank_duration:
  assumes "\<forall>c\<in>set txt. isSpace c"
  shows "estimatedDuration (calculateTiming txt ''lent'') = 2 / 3"
  by (simp add: calculateTiming_def Let_def trim_blank [OF assms] tres_lent_def)

lemma grokRequest_outcomes:
  "(\<exists>err. grokRequest fr = Inl err) \<or> grokRequest fr = Inr Malformed
     \<or> (\<exists>segs. grokRequest fr = Inr (Segments segs))"
proof (cases "grokRequest fr")
  case (Inl err)
  then show ?thesis by blast
next
  case (Inr v)
  then show ?thesis by (cases v) auto
qed

text \<open>
  The pipeline does not reject an empty or blank text: with a remote analysis that
  fails it returns one segment, whose text is the input.
\<close>

theorem blank_text_counterexample:
  "map_sum id (map segment) (analyzeTextEnvironments NetworkError '''') = Inr ['''']
   \<and> map_sum id (map segment) (analyzeTextEnvironments (Response 200 (Parsed Malformed)) ''  '') = Inr [''  '']"
  by code_simp

text \<open>
  C5. For every input text that is empty or consists of white space only,
  analyzeTextEnvironments does not fail: it returns a list of segments. Unless the
  remote reply brought a segment list of its own, the list is one segment whose text is
  the input text, unchanged, with start time 0 and duration 2/3 second.
\<close>

theorem blank_text_returns_segments:
  assumes "\<forall>c\<in>set txt. isSpace c"
  shows "\<exists>rs. analyzeTextEnvironments fr txt = Inr rs
           \<and> ((\<forall>segs. grokRequest fr \<noteq> Inr (Segments segs)) \<longrightarrow>
                (\<exists>r. rs = [r] \<and> segment r = txt \<and> startTime r = Some 0
                   \<and> EnvironmentDetection.duration r = Some (2 / 3)))"
proof -
  have single: "\<exists>r. addTiming [d] = [r] \<and> segment r = txt \<and> startTime r = Some 0
                   \<and> EnvironmentDetection.duration r = Some (2 / 3)"
    if "segment d = txt" and "speechRate d = ''lent''" for d
    using that addTiming_single [of d] blank_duration [OF assms] by simp
  from grokRequest_outcomes [of fr] consider
    (failed) err where "grokRequest fr = Inl err"
    | (malformed) "grokRequest fr = Inr Malformed"
    | (segments) segs where "grokRequest fr = Inr (Segments segs)"
    by blast
  then show ?thesis
  proof cases
    case failed
    then have "analyzeTextWithGrok fr txt = Inr (Segments [defaultSegment txt])"
      by (simp add: analyzeTextWithGrok_def)
    then have rs: "analyzeTextEnvironments fr txt = Inr (addTiming [toDetection (defaultSegment txt)])"
      using pipeline_remote [of fr "txt" "[defaultSegment txt]"] by simp
    have "segment (toDetection (defaultSegment txt)) = txt"
      by (simp add: segment_toDetection defaultSegment_def cleanText_blank [OF assms])
    moreover have "speechRate (toDetection (defaultSegment txt)) = ''lent''"
      by (simp add: toDetection_def defaultSegment_def Let_def tres_lent_def)
    ultimately show ?thesis
      using single rs by simp
  next
    case malformed
    then have "analyzeTextWithGrok fr txt = Inr Malformed"
      by (simp add: analyzeTextWithGrok_def)
    then have rs: "analyzeTextEnvironments fr txt = Inr (addTiming [localDetection txt])"
      by (simp add: pipeline_local analyzeTextLocally_blank [OF assms])
    have "segment (localDetection txt) = txt" "speechRate (localDetection txt) = ''lent''"
      by (simp_all add: localDetection_def Let_def)
    then show ?thesis
      using single rs by simp
  next
    case segments
    then have "analyzeTextWithGrok fr txt = Inr (Segments segs)"
      by (simp add: analyzeTextWithGrok_def)
    from pipeline_remote [OF this] segments show ?thesis by simp
  qed
qed

theorem blank_text_returns_segments_witness:
  "isSpace (CHR 0x0A) \<and> isSpace CHR '' ''
   \<and> grokRequest (Response 503 Unparsable) = Inl (ApiError 503)
   \<and> (\<exists>r. analyzeTextEnvironments (Response 503 Unparsable) [CHR 0x0A, CHR '' ''] = Inr [r]
          \<and> segment r = [CHR 0x0A, CHR '' ''] \<and> EnvironmentDetection.duration r = Some (2 / 3))"
proof -
  have s: "\<forall>c\<in>set [CHR 0x0A, CHR '' '']. isSpace c"
    by (simp add: isSpace_def)
  have g: "grokRequest (Response 503 Unparsable) = Inl (ApiError 503)"
    by (simp add: grokRequest_def responseOk_def)
  then have n: "\<forall>segs. grokRequest (Response 503 Unparsable) \<noteq> Inr (Segments segs)"
    by simp
  from blank_text_returns_segments [OF s, of "Response 503 Unparsable"] obtain rs where
    rs: "analyzeTextEnvironments (Response 503 Unparsable) [CHR 0x0A, CHR '' ''] = Inr rs"
    and "(\<forall>segs. grokRequest (Response 503 Unparsable) \<noteq> Inr (Segments segs))
           \<longrightarrow> (\<exists>r. rs = [r] \<and> segment r = [CHR 0x0A, CHR '' ''] \<and> startTime r = Some 0
                   \<and> EnvironmentDetection.duration r = Some (2 / 3))"
    by auto
  with n have "\<exists>r. rs = [r] \<and> segment r = [CHR 0x0A, CHR '' '']
      \<and> EnvironmentDetection.duration r = Some (2 / 3)"
    by auto
  with rs have "\<exists>r. analyzeTextEnvironments (Response 503 Unparsable) [CHR 0x0A, CHR '' ''] = Inr [r]
          \<and> segment r = [CHR 0x0A, CHR '' ''] \<and> EnvironmentDetection.duration r = Some (2 / 3)"
    by auto
  with s g show ?thesis by simp
qed

text \<open>
  At status 500 the adapter does not fail: it returns the default segment for the whole
  text, and the pipeline returns that one segment, where the local analysis of the same
  text would return two.
\<close>

theorem adapter_recovers_counterexample:
  "analyzeTextWithGrok (Response 500 Unparsable) (''Viens'' @ [CHR 0x0A, CHR 0x0A] @ ''Encore'')
     = Inr (Segments [defaultSegment (''Viens'' @ [CHR 0x0A, CHR 0x0A] @ ''Encore'')])
   \<and> map_sum id (map segment)
        (analyzeTextEnvironments (Response 500 Unparsable) (''Viens'' @ [CHR 0x0A, CHR 0x0A] @ ''Encore''))
     = Inr [''Viens'' @ [CHR 0x0A, CHR 0x0A] @ ''Encore'']
   \<and> map_sum id (map segment) (analyzeTextLocally (''Viens'' @ [CHR 0x0A, CHR 0x0A] @ ''Encore''))
     = Inr [''Viens'', ''Encore'']"
  by code_simp

text \<open>
  C6. When the fetch fails, the status is not a success, or the reply cannot be parsed,
  analyzeTextWithGrok does not fail: its catch block returns one default segment that
  carries the whole text. The local analysis is not called; analyzeTextEnvironments
  converts that segment and returns a list of one segment with the default parameters
  (stability 0.65, similarity 0.8, speed 35%, pitch shift -5, tone 'sensuel',
  environment 'chambre', rate 'lent', volume 'normal').
\<close>

theorem remote_failure_gives_default_segment:
  assumes "fr = NetworkError \<or> (\<exists>status body. fr = Response status body
             \<and> (\<not> responseOk status \<or> body = Unparsable))"
  shows "analyzeTextWithGrok fr txt = Inr (Segments [defaultSegment txt])
         \<and> (\<exists>r. analyzeTextEnvironments fr txt = Inr [r]
               \<and> segment r = (if length (cleanText txt) < 3 then txt else cleanText txt)
               \<and> elevenlabsParams r = Some \<lparr> ElevenLabsParams.stability = 65 / 100,
                     ElevenLabsParams.similarity_boost = 8 / 10, speed = Some ''35%'',
                     pitch_shift = Some (- 5) \<rparr>
               \<and> emotionalTone r = ''sensuel''
               \<and> EnvironmentDetection.environment r = ''chambre''
               \<and> speechRate r = ''lent''
               \<and> volume r = ''normal'')"
proof -
  have "\<exists>err. grokRequest fr = Inl err"
    using assms by (auto simp: grokRequest_def)
  then have a: "analyzeTextWithGrok fr txt = Inr (Segments [defaultSegment txt])"
    by (auto simp: analyzeTextWithGrok_def)
  let ?d = "toDetection (defaultSegment txt)"
  from pipeline_remote [OF a]
  have rs: "analyzeTextEnvironments fr txt = Inr (addTiming [?d])"
    by simp
  obtain r where r: "addTiming [?d] = [r]"
    using addTiming_length [of "[?d]"] by (cases "addTiming [?d]") auto
  from addTiming_fields [of 0 "[?d]"] r
  have f: "segment r = segment ?d" "emotionalTone r = emotionalTone ?d"
    "EnvironmentDetection.environment r = EnvironmentDetection.environment ?d"
    "speechRate r = speechRate ?d" "volume r = volume ?d"
    "elevenlabsParams r = elevenlabsParams ?d"
    by simp_all
  have 1: "segment ?d = (if length (cleanText txt) < 3 then txt else cleanText txt)"
    by (simp add: segment_toDetection defaultSegment_def)
  have 2: "elevenlabsParams ?d = Some \<lparr> ElevenLabsParams.stability = 65 / 100,
                     ElevenLabsParams.similarity_boost = 8 / 10, speed = Some ''35%'',
                     pitch_shift = Some (- 5) \<rparr>"
    by (simp add: toDetection_def defaultSegment_def Let_def tres_lent_def)
  have 3: "emotionalTone ?d = ''sensuel''"
    by (simp add: toDetection_def defaultSegment_def Let_def gemissement_def)
  have 4: "EnvironmentDetection.environment ?d = ''chambre''"
    by (simp add: toDetection_def defaultSegment_def Let_def)
  have 5: "speechRate ?d = ''lent''"
    by (simp add: toDetection_def defaultSegment_def Let_def tres_lent_def)
  have 6: "volume ?d = ''normal''"
    by (simp add: toDetection_def defaultSegment_def Let_def)
  from rs r f 1 2 3 4 5 6 a show ?thesis by simp
qed

theorem remote_failure_gives_default_segment_witness:
  "\<not> responseOk 500
   \<and> analyzeTextWithGrok (Response 500 (Parsed (Segments []))) ''Viens'' = Inr (Segments [defaultSegment ''Viens''])
   \<and> (\<exists>r. analyzeTextEnvironments (Response 500 (Parsed (Segments []))) ''Viens'' = Inr [r]
          \<and> segment r = ''Viens'' \<and> emotionalTone r = ''sensuel'')"
proof -
  have ok: "\<not> responseOk 500"
    by (simp add: responseOk_def)
  then have h: "Response 500 (Parsed (Segments [])) = NetworkError
      \<or> (\<exists>status body. Response 500 (Parsed (Segments [])) = Response status body
             \<and> (\<not> responseOk status \<or> body = Unparsable))"
    by simp
  have c: "cleanText ''Viens'' = ''Viens''"
    by code_simp
  from remote_failure_gives_default_segment [OF h, of "''Viens''"] ok show ?thesis
    by (auto simp: c)
qed

section \<open>The speech rate\<close>

lemma parseInt_values:
  "parseInt ''25'' = Some 25"
  "parseInt ''35'' = Some 35"
  "parseInt ''45'' = Some 45"
  "parseInt ''55'' = Some 55"
  by code_simp+

lemma prosodySpeed_of_speed:
  assumes "elevenlabsParams r = Some p" and "speed p = Some sp" and "sp \<noteq> []"
  shows "prosodySpeed r = map_option (\<lambda>v. min v 35) (parseInt (remove1 (CHR ''%'') sp))"
  using assms by (simp add: prosodySpeed_def Let_def split: option.splits)

lemma toDetection_speed:
  "\<exists>p. elevenlabsParams (toDetection seg) = Some p
       \<and> speed p = Some (if rhythm (vocal seg) = tres_lent then ''25%''
                         else if rhythm (vocal seg) = ''lent'' then ''35%''
                         else if rhythm (vocal seg) = ''rapide'' then ''55%''
                         else ''45%'')"
  by (simp add: toDetection_def Let_def)

lemma localDetection_speed:
  "\<exists>p. elevenlabsParams (localDetection s) = Some p \<and> speed p = Some ''35%''"
  by (simp add: localDetection_def Let_def)

text \<open>
  A remote segment with rhythm 'rapide' gets the speed field 55%, above 35%. A remote
  segment of vocal type 'cri' with rhythm 'tres lent' (written with its accent) has the tone 'jouissance' and is
  sent at 25%, below the 32% that the prompt gives as the floor of that tier.
\<close>

theorem speed_field_counterexample:
  "map_sum id (map (map_option speed \<circ> elevenlabsParams))
     (analyzeTextEnvironments
        (Response 200 (Parsed (Segments
           [(defaultSegment ''Encore plus vite'')\<lparr> vocal :=
              \<lparr> VocalCharacteristics.intensity = 75, VocalCharacteristics.type = ''normal'',
                rhythm = ''rapide'', pitch = 2 \<rparr> \<rparr>])))
        ''Encore plus vite'')
     = Inr [Some (Some ''55%'')]
   \<and> map_sum id (map emotionalTone)
     (analyzeTextEnvironments
        (Response 200 (Parsed (Segments
           [(defaultSegment ''Oui'')\<lparr> vocal :=
              \<lparr> VocalCharacteristics.intensity = 80, VocalCharacteristics.type = ''cri'',
                rhythm = tres_lent, pitch = 5 \<rparr> \<rparr>])))
        ''Oui'')
     = Inr [''jouissance'']
   \<and> map_sum id (map prosodySpeed)
     (analyzeTextEnvironments
        (Response 200 (Parsed (Segments
           [(defaultSegment ''Oui'')\<lparr> vocal :=
              \<lparr> VocalCharacteristics.intensity = 80, VocalCharacteristics.type = ''cri'',
                rhythm = tres_lent, pitch = 5 \<rparr> \<rparr>])))
        ''Oui'')
     = Inr [Some 25]"
  by code_simp

text \<open>
  C1. For every segment that the pipeline returns, from the remote analysis or from
  the local one, the rate that generateVoiceWithEnvironment sends to the synthesis is
  the number of the speed field capped at 35: 25 when the field is 25%, and 35
  otherwise. The speed field is chosen by the rhythm of the remote segment, whatever
  its vocal type: 25% for 'tres lent' (written with its accent), 35% for 'lent', 55% for
  'rapide', 45% for any other rhythm; it is 35% for every segment of the local analysis.
\<close>

theorem rate_sent_at_most_35:
  assumes "analyzeTextEnvironments fr txt = Inr rs" and "k < length rs"
  shows "\<exists>p sp v. elevenlabsParams (rs ! k) = Some p \<and> speed p = Some sp
           \<and> (sp, v) \<in> {(''25%'', 25), (''35%'', 35), (''45%'', 45), (''55%'', 55)}
           \<and> prosodySpeed (rs ! k) = Some (min v 35)
           \<and> prosodySpeed (rs ! k) = Some (if sp = ''25%'' then 25 else 35)
           \<and> (\<forall>segs. analyzeTextWithGrok fr txt = Inr (Segments segs) \<longrightarrow>
                 k < length segs
                 \<and> sp = (if rhythm (vocal (segs ! k)) = tres_lent then ''25%''
                         else if rhythm (vocal (segs ! k)) = ''lent'' then ''35%''
                         else if rhythm (vocal (segs ! k)) = ''rapide'' then ''55%''
                         else ''45%''))
           \<and> ((\<forall>segs. analyzeTextWithGrok fr txt \<noteq> Inr (Segments segs)) \<longrightarrow> sp = ''35%'')"
proof -
  have rate: "\<exists>v. (sp, v) \<in> {(''25%'', 25), (''35%'', 35), (''45%'', 45), (''55%'', 55)}
           \<and> prosodySpeed r = Some (min v 35)
           \<and> prosodySpeed r = Some (if sp = ''25%'' then 25 else 35)"
    if p: "elevenlabsParams r = Some p" "speed p = Some sp"
      and sp: "sp \<in> {''25%'', ''35%'', ''45%'', ''55%''}" for r p sp
  proof -
    from sp have "sp \<noteq> []" by auto
    from prosodySpeed_of_speed [OF p this]
    have e: "prosodySpeed r = map_option (\<lambda>v. min v 35) (parseInt (remove1 (CHR ''%'') sp))" .
    from sp consider "sp = ''25%''" | "sp = ''35%''" | "sp = ''45%''" | "sp = ''55%''"
      by auto
    then show ?thesis
    proof cases
      case 1
      with e have "prosodySpeed r = Some (min 25 35)" by (simp add: parseInt_values)
      with 1 show ?thesis by simp
    next
      case 2
      with e have "prosodySpeed r = Some (min 35 35)" by (simp add: parseInt_values)
      with 2 show ?thesis by simp
    next
      case 3
      with e have "prosodySpeed r = Some (min 45 35)" by (simp add: parseInt_values)
      with 3 show ?thesis by simp
    next
      case 4
      with e have "prosodySpeed r = Some (min 55 35)" by (simp add: parseInt_values)
      with 4 show ?thesis by simp
    qed
  qed
  from analyzeTextWithGrok_returns [of fr "txt"] obtain g where g: "analyzeTextWithGrok fr txt = Inr g"
    by blast
  show ?thesis
  proof (cases g)
    case (Segments segs)
    with g pipeline_remote [of fr "txt" segs] assms(1)
    have rs: "rs = addTiming (map toDetection segs)" by simp
    with assms(2) have k: "k < length segs"
      by (simp add: addTiming_length)
    with rs addTiming_fields [of k "map toDetection segs"]
    have e: "elevenlabsParams (rs ! k) = elevenlabsParams (toDetection (segs ! k))"
      by simp
    let ?sp = "if rhythm (vocal (segs ! k)) = tres_lent then ''25%''
               else if rhythm (vocal (segs ! k)) = ''lent'' then ''35%''
               else if rhythm (vocal (segs ! k)) = ''rapide'' then ''55%''
               else ''45%''"
    from toDetection_speed [of "segs ! k"] e obtain p where
      p: "elevenlabsParams (rs ! k) = Some p" "speed p = Some ?sp"
      by auto
    have "?sp \<in> {''25%'', ''35%'', ''45%'', ''55%''}"
      by simp
    from rate [OF p this] obtain v where
      v: "(?sp, v) \<in> {(''25%'', 25), (''35%'', 35), (''45%'', 45), (''55%'', 55)}"
      "prosodySpeed (rs ! k) = Some (min v 35)"
      "prosodySpeed (rs ! k) = Some (if ?sp = ''25%'' then 25 else 35)"
      by blast
    have "\<forall>segs'. analyzeTextWithGrok fr txt = Inr (Segments segs') \<longrightarrow> segs' = segs"
      using g Segments by simp
    with k have a: "\<forall>segs'. analyzeTextWithGrok fr txt = Inr (Segments segs') \<longrightarrow>
                 k < length segs'
                 \<and> ?sp = (if rhythm (vocal (segs' ! k)) = tres_lent then ''25%''
                         else if rhythm (vocal (segs' ! k)) = ''lent'' then ''35%''
                         else if rhythm (vocal (segs' ! k)) = ''rapide'' then ''55%''
                         else ''45%'')"
      by blast
    have b: "(\<forall>segs'. analyzeTextWithGrok fr txt \<noteq> Inr (Segments segs')) \<longrightarrow> ?sp = ''35%''"
      using g Segments by simp
    show ?thesis
      apply (rule exI [of _ p], rule exI [of _ ?sp], rule exI [of _ v])
      using p v a b apply (intro conjI)
      apply assumption+
      done
  next
    case Malformed
    with g pipeline_local [of fr "txt"] assms(1) analyzeTextLocally_eq [of "txt"]
    obtain ps where rs: "rs = addTiming (map localDetection ps)"
      by auto
    with assms(2) have k: "k < length ps"
      by (simp add: addTiming_length)
    with rs addTiming_fields [of k "map localDetection ps"]
    have e: "elevenlabsParams (rs ! k) = elevenlabsParams (localDetection (ps ! k))"
      by simp
    from localDetection_speed [of "ps ! k"] e obtain p where
      p: "elevenlabsParams (rs ! k) = Some p" "speed p = Some ''35%''"
      by auto
    have "''35%'' \<in> {''25%'', ''35%'', ''45%'', ''55%''}"
      by simp
    from rate [OF p this] obtain v where
      v: "(''35%'', v) \<in> {(''25%'', 25), (''35%'', 35), (''45%'', 45), (''55%'', 55)}"
      "prosodySpeed (rs ! k) = Some (min v 35)"
      "prosodySpeed (rs ! k) = Some (if ''35%'' = ''25%'' then 25 else 35)"
      by blast
    have a: "\<forall>segs. analyzeTextWithGrok fr txt = Inr (Segments segs) \<longrightarrow>
                 k < length segs
                 \<and> ''35%'' = (if rhythm (vocal (segs ! k)) = tres_lent then ''25%''
                         else if rhythm (vocal (segs ! k)) = ''lent'' then ''35%''
                         else if rhythm (vocal (segs ! k)) = ''rapide'' then ''55%''
                         else ''45%'')"
      using g Malformed by simp
    have b: "(\<forall>segs. analyzeTextWithGrok fr txt \<noteq> Inr (Segments segs)) \<longrightarrow> ''35%'' = ''35%''"
      by simp
    show ?thesis
      apply (rule exI [of _ p], rule exI [of _ "''35%''"], rule exI [of _ v])
      using p v a b apply (intro conjI)
      apply assumption+
      done
  qed
qed

theorem rate_sent_at_most_35_witness:
  "\<exists>rs. analyzeTextEnvironments
           (Response 200 (Parsed (Segments
              [(defaultSegment ''Encore plus vite'')\<lparr> vocal :=
                 \<lparr> VocalCharacteristics.intensity = 75, VocalCharacteristics.type = ''normal'',
                   rhythm = ''rapide'', pitch = 2 \<rparr> \<rparr>])))
           ''Encore plus vite'' = Inr rs
      \<and> 0 < length rs
      \<and> map_option speed (elevenlabsParams (rs ! 0)) = Some (Some ''55%'')
      \<and> prosodySpeed (rs ! 0) = Some 35"
proof -
  let ?seg = "(defaultSegment ''Encore plus vite'')\<lparr> vocal :=
                 \<lparr> VocalCharacteristics.intensity = 75, VocalCharacteristics.type = ''normal'',
                   rhythm = ''rapide'', pitch = 2 \<rparr> \<rparr>"
  let ?fr = "Response 200 (Parsed (Segments [?seg]))"
  let ?rs = "addTiming (map toDetection [?seg])"
  have a: "analyzeTextWithGrok ?fr ''Encore plus vite'' = Inr (Segments [?seg])"
    by (simp add: analyzeTextWithGrok_def grokRequest_def responseOk_def)
  then have rs: "analyzeTextEnvironments ?fr ''Encore plus vite'' = Inr ?rs"
    by (rule pipeline_remote)
  have len: "0 < length ?rs"
    by (simp add: addTiming_length)
  from rate_sent_at_most_35 [OF rs len] obtain p sp v where
    p: "elevenlabsParams (?rs ! 0) = Some p" "speed p = Some sp"
    and v: "(sp, v) \<in> {(''25%'', 25), (''35%'', 35), (''45%'', 45), (''55%'', 55)}"
    and r: "prosodySpeed (?rs ! 0) = Some (min v 35)"
    and f: "\<forall>segs. analyzeTextWithGrok ?fr ''Encore plus vite'' = Inr (Segments segs) \<longrightarrow>
                 0 < length segs
                 \<and> sp = (if rhythm (vocal (segs ! 0)) = tres_lent then ''25%''
                         else if rhythm (vocal (segs ! 0)) = ''lent'' then ''35%''
                         else if rhythm (vocal (segs ! 0)) = ''rapide'' then ''55%''
                         else ''45%'')"
    by (elim exE conjE)
  from f a have sp: "sp = ''55%''"
    by (simp add: tres_lent_def)
  with v have "v = 55" by simp
  with r have "prosodySpeed (?rs ! 0) = Some 35" by simp
  moreover from p sp have "map_option speed (elevenlabsParams (?rs ! 0)) = Some (Some ''55%'')"
    by simp
  ultimately show ?thesis
    using rs len by (intro exI [of _ ?rs] conjI)
qed

section \<open>The voice settings\<close>

lemma max_min_bounds:
  fixes lo hi x :: rat
  assumes "lo \<le> hi"
  shows "lo \<le> max lo (min hi x) \<and> max lo (min hi x) \<le> hi"
  using assms by auto

lemma baseSettings_entries:
  assumes "map_of baseSettings emotion = Some base"
  shows "\<exists>s b. VoiceSettings.stability base = Num s \<and> VoiceSettings.similarity_boost base = Num b"
proof -
  from assms have "(emotion, base) \<in> set baseSettings"
    by (rule map_of_SomeD)
  then have "VoiceSettings.stability base \<noteq> NaN \<and> VoiceSettings.similarity_boost base \<noteq> NaN"
    unfolding baseSettings_def by auto
  then show ?thesis
    by (cases "VoiceSettings.stability base"; cases "VoiceSettings.similarity_boost base") auto
qed

lemma sensuel_entry:
  "map_of baseSettings ''sensuel''
     = Some \<lparr> VoiceSettings.stability = Num (55 / 100), VoiceSettings.similarity_boost = Num (88 / 100) \<rparr>"
  by (simp add: baseSettings_def)

lemma inherited_label_gives_NaN:
  "getVoiceSettings ''constructor'' analysis
     = \<lparr> VoiceSettings.stability = NaN, VoiceSettings.similarity_boost = NaN \<rparr>"
  by (simp add: getVoiceSettings_def baseSettings_def inheritedKeys_def Let_def)

lemma NaN_intensity_gives_NaN:
  "VoiceSettings.stability
     (getVoiceSettings ''murmure'' \<lparr> TextAnalysis.intensity = NaN, emotionalProgression = Num 0 \<rparr>)
     = NaN"
  by (simp add: getVoiceSettings_def baseSettings_def Let_def)

text \<open>
  At intensity 1 the stability for 'murmure' is 0.70 * (1 - 1 * 0.3) = 0.49; with the
  intensity divided by 100 it would be 0.70 * (1 - 0.003) = 0.6979.
\<close>

theorem intensity_scale_counterexample:
  "VoiceSettings.stability
     (getVoiceSettings ''murmure'' \<lparr> TextAnalysis.intensity = Num 1, emotionalProgression = Num 0 \<rparr>)
     = Num (49 / 100)
   \<and> max (15 / 100) (min (75 / 100) ((70 / 100) * (1 - 1 / 100 * (3 / 10)))) = (6979 / 10000 :: rat)"
  by (simp add: getVoiceSettings_def baseSettings_def Let_def)

text \<open>
  C4. For every emotion label that an object does not inherit as a property name
  (labels outside the known set included, which get the settings of 'sensuel'), every
  finite intensity and every finite emotional progression, getVoiceSettings returns a
  stability in [0.15, 0.75] and a similarity boost in [0.75, 0.98]: the clamped values
  of base * (1 - intensity * 0.3), where the intensity is the field of the analysis as
  it is, and of base + progression * 0.15.
\<close>

theorem voice_settings_clamped:
  assumes "emotion \<notin> set inheritedKeys"
    and "TextAnalysis.intensity analysis = Num i"
    and "emotionalProgression analysis = Num q"
  shows "\<exists>base sb bb s b.
           (map_of baseSettings emotion = Some base
            \<or> map_of baseSettings emotion = None \<and> map_of baseSettings ''sensuel'' = Some base)
           \<and> VoiceSettings.stability base = Num sb \<and> VoiceSettings.similarity_boost base = Num bb
           \<and> VoiceSettings.stability (getVoiceSettings emotion analysis) = Num s
           \<and> VoiceSettings.similarity_boost (getVoiceSettings emotion analysis) = Num b
           \<and> s = max (15 / 100) (min (75 / 100) (sb * (1 - i * (3 / 10))))
           \<and> b = max (75 / 100) (min (98 / 100) (bb + q * (15 / 100)))
           \<and> 15 / 100 \<le> s \<and> s \<le> 75 / 100 \<and> 75 / 100 \<le> b \<and> b \<le> 98 / 100"
proof -
  obtain base where base:
    "map_of baseSettings emotion = Some base
       \<or> map_of baseSettings emotion = None \<and> map_of baseSettings ''sensuel'' = Some base"
    using sensuel_entry by (cases "map_of baseSettings emotion") auto
  then have "map_of baseSettings emotion = Some base \<or> map_of baseSettings ''sensuel'' = Some base"
    by auto
  then obtain sb bb where n: "VoiceSettings.stability base = Num sb"
    "VoiceSettings.similarity_boost base = Num bb"
    using baseSettings_entries by blast
  let ?s = "max (15 / 100) (min (75 / 100) (sb * (1 - i * (3 / 10))))"
  let ?b = "max (75 / 100) (min (98 / 100) (bb + q * (15 / 100)))"
  have sel: "(case map_of baseSettings emotion of
               Some own \<Rightarrow> own
             | None \<Rightarrow>
                 if emotion \<in> set inheritedKeys
                 then \<lparr> VoiceSettings.stability = NaN, VoiceSettings.similarity_boost = NaN \<rparr>
                 else (case map_of baseSettings ''sensuel'' of
                         Some own \<Rightarrow> own
                       | None \<Rightarrow> \<lparr> VoiceSettings.stability = NaN, VoiceSettings.similarity_boost = NaN \<rparr>))
             = base"
    using base assms(1) by auto
  have sv: "VoiceSettings.stability (getVoiceSettings emotion analysis) = Num ?s"
    unfolding getVoiceSettings_def Let_def sel
    by (simp only: VoiceSettings.simps n assms(2) mathMax.simps mathMin.simps jsTimes.simps
        jsMinus.simps)
  have bv: "VoiceSettings.similarity_boost (getVoiceSettings emotion analysis) = Num ?b"
    unfolding getVoiceSettings_def Let_def sel
    by (simp only: VoiceSettings.simps n assms(3) mathMax.simps mathMin.simps jsTimes.simps
        jsPlus.simps)
  have s1: "15 / 100 \<le> ?s \<and> ?s \<le> 75 / 100"
    by (rule max_min_bounds) simp
  have b1: "75 / 100 \<le> ?b \<and> ?b \<le> 98 / 100"
    by (rule max_min_bounds) simp
  show ?thesis
    apply (rule exI [of _ base], rule exI [of _ sb], rule exI [of _ bb])
    apply (rule exI [of _ ?s], rule exI [of _ ?b])
    using base n sv bv s1 b1 apply (intro conjI)
    apply (assumption | rule refl | erule conjunct1 | erule conjunct2)+
    done
qed

theorem voice_settings_clamped_witness:
  "''inconnu'' \<notin> set inheritedKeys
   \<and> TextAnalysis.intensity \<lparr> TextAnalysis.intensity = Num (1 / 2), emotionalProgression = Num 1 \<rparr>
       = Num (1 / 2)
   \<and> emotionalProgression \<lparr> TextAnalysis.intensity = Num (1 / 2), emotionalProgression = Num 1 \<rparr>
       = Num 1
   \<and> getVoiceSettings ''inconnu'' \<lparr> TextAnalysis.intensity = Num (1 / 2), emotionalProgression = Num 1 \<rparr>
       = \<lparr> VoiceSettings.stability = Num (4675 / 10000), VoiceSettings.similarity_boost = Num (98 / 100) \<rparr>"
proof -
  let ?a = "\<lparr> TextAnalysis.intensity = Num (1 / 2), emotionalProgression = Num 1 \<rparr>"
  have k: "''inconnu'' \<notin> set inheritedKeys"
    by (simp add: inheritedKeys_def)
  have i: "TextAnalysis.intensity ?a = Num (1 / 2)" and q: "emotionalProgression ?a = Num 1"
    by simp_all
  have m: "map_of baseSettings ''inconnu'' = None"
    by (simp add: baseSettings_def)
  from voice_settings_clamped [OF k i q]
  obtain base sb bb s b where
    b: "map_of baseSettings ''inconnu'' = Some base
       \<or> map_of baseSettings ''inconnu'' = None \<and> map_of baseSettings ''sensuel'' = Some base"
    and n: "VoiceSettings.stability base = Num sb" "VoiceSettings.similarity_boost base = Num bb"
    and r: "VoiceSettings.stability (getVoiceSettings ''inconnu'' ?a) = Num s"
      "VoiceSettings.similarity_boost (getVoiceSettings ''inconnu'' ?a) = Num b"
    and e: "s = max (15 / 100) (min (75 / 100) (sb * (1 - 1 / 2 * (3 / 10))))"
      "b = max (75 / 100) (min (98 / 100) (bb + 1 * (15 / 100)))"
    by (elim exE conjE)
  from b m sensuel_entry have "base = \<lparr> VoiceSettings.stability = Num (55 / 100),
      VoiceSettings.similarity_boost = Num (88 / 100) \<rparr>"
    by simp
  with n have "sb = 55 / 100" "bb = 88 / 100"
    by simp_all
  with e have "s = 4675 / 10000" "b = 98 / 100"
    by simp_all
  with r have "getVoiceSettings ''inconnu'' ?a
       = \<lparr> VoiceSettings.stability = Num (4675 / 10000), VoiceSettings.similarity_boost = Num (98 / 100) \<rparr>"
    by (cases "getVoiceSettings ''inconnu'' ?a") simp
  with k i q show ?thesis
    by (intro conjI)
qed

end
